theory Spec2Isabelle
  imports Main "HOL-Library.Word" "HOL-Library.Sublist"
begin

unbundle bit_operations_syntax

section \<open>Framing codec (include/protocol.hpp)\<close>

text \<open>
  A frame on the bus is a vector of bytes. \<^verbatim>\<open>std::string\<close> holds 8-bit characters, so a
  payload is a \<^typ>\<open>string\<close>; copying it into the frame and back is the identity on the
  underlying bytes.
\<close>

type_synonym byte = "8 word"

definition byte_of_char :: "char \<Rightarrow> byte" where
  "byte_of_char c = of_char c"

definition char_of_byte :: "byte \<Rightarrow> char" where
  "char_of_byte b = char_of (unat b)"

text \<open>\<^verbatim>\<open>enum class MsgType : uint16_t { RouteReq = 1, RouteResp = 2 }\<close>\<close>

datatype MsgType = RouteReq | RouteResp

fun msgtype_code :: "MsgType \<Rightarrow> 16 word" where
  "msgtype_code RouteReq = 1"
| "msgtype_code RouteResp = 2"

text \<open>\<^verbatim>\<open>struct MsgHdr\<close>, packed: 4 + 2 + 2 + 8 + 4 + 4 = 24 bytes.\<close>

record MsgHdr =
  magic :: "32 word"
  version :: "16 word"
  type :: "16 word"
  corr_id :: "64 word"
  payload_len :: "32 word"
  reserved :: "32 word"

definition hdr_size :: nat where
  "hdr_size = 24"

definition MAGIC :: "32 word" where
  "MAGIC = 0x54524D51"

text \<open>
  \<^verbatim>\<open>memcpy\<close> of the header to and from the byte vector, on the little-endian host the
  message queues live on: the least significant byte of each field comes first.
\<close>

definition le16 :: "16 word \<Rightarrow> byte list" where
  "le16 w = [ucast w, ucast (drop_bit 8 w)]"

definition le32 :: "32 word \<Rightarrow> byte list" where
  "le32 w = [ucast w, ucast (drop_bit 8 w), ucast (drop_bit 16 w), ucast (drop_bit 24 w)]"

definition le64 :: "64 word \<Rightarrow> byte list" where
  "le64 w = [ucast w, ucast (drop_bit 8 w), ucast (drop_bit 16 w), ucast (drop_bit 24 w),
     ucast (drop_bit 32 w), ucast (drop_bit 40 w), ucast (drop_bit 48 w), ucast (drop_bit 56 w)]"

definition rd16 :: "byte list \<Rightarrow> 16 word" where
  "rd16 bs = ucast (bs ! 0) OR push_bit 8 (ucast (bs ! 1))"

definition rd32 :: "byte list \<Rightarrow> 32 word" where
  "rd32 bs = ucast (bs ! 0) OR push_bit 8 (ucast (bs ! 1)) OR push_bit 16 (ucast (bs ! 2))
     OR push_bit 24 (ucast (bs ! 3))"

definition rd64 :: "byte list \<Rightarrow> 64 word" where
  "rd64 bs = ucast (bs ! 0) OR push_bit 8 (ucast (bs ! 1)) OR push_bit 16 (ucast (bs ! 2))
     OR push_bit 24 (ucast (bs ! 3)) OR push_bit 32 (ucast (bs ! 4)) OR push_bit 40 (ucast (bs ! 5))
     OR push_bit 48 (ucast (bs ! 6)) OR push_bit 56 (ucast (bs ! 7))"

definition hdr_bytes :: "MsgHdr \<Rightarrow> byte list" where
  "hdr_bytes h = le32 (magic h) @ le16 (version h) @ le16 (type h) @ le64 (corr_id h)
     @ le32 (payload_len h) @ le32 (reserved h)"

text \<open>Reading a header back; only called on buffers of at least \<^const>\<open>hdr_size\<close> bytes.\<close>

definition hdr_read :: "byte list \<Rightarrow> MsgHdr" where
  "hdr_read bs = \<lparr>magic = rd32 bs, version = rd16 (drop 4 bs), type = rd16 (drop 6 bs),
     corr_id = rd64 (drop 8 bs), payload_len = rd32 (drop 16 bs), reserved = rd32 (drop 20 bs)\<rparr>"

text \<open>
  \<^verbatim>\<open>pack\<close>: the header defaults (magic, version 1, reserved 0), the type, the correlation
  id, and the payload size cast from \<^verbatim>\<open>size_t\<close> to \<^verbatim>\<open>uint32_t\<close> (which truncates);
  then the payload bytes. It has no size check and no failure path.
\<close>

definition pack :: "MsgType \<Rightarrow> 64 word \<Rightarrow> string \<Rightarrow> byte list" where
  "pack t c payload =
     hdr_bytes \<lparr>magic = MAGIC, version = 1, type = msgtype_code t, corr_id = c,
                payload_len = of_nat (length payload), reserved = 0\<rparr>
     @ map byte_of_char payload"

text \<open>
  \<^verbatim>\<open>unpack(data, len, h, payload)\<close>: the argument is the \<^verbatim>\<open>len\<close> bytes at \<^verbatim>\<open>data\<close>.
  \<^verbatim>\<open>false\<close> is \<^const>\<open>None\<close>. The length comparison is done in \<^verbatim>\<open>size_t\<close> (64 bits), where
  24 plus a 32-bit value cannot wrap.
\<close>

definition unpack :: "byte list \<Rightarrow> (MsgHdr \<times> string) option" where
  "unpack data =
     (if length data < hdr_size then None
      else let h = hdr_read data in
        if magic h \<noteq> MAGIC \<or> version h \<noteq> 1 then None
        else if hdr_size + unat (payload_len h) \<noteq> length data then None
        else Some (h, map char_of_byte (take (unat (payload_len h)) (drop hdr_size data))))"


section \<open>IPC bus adapter (include/ipc_mq.hpp)\<close>

record MqConfig =
  name :: string
  maxmsg :: int
  msgsize :: int
  create :: bool
  nonblock :: bool

text \<open>
  \<^verbatim>\<open>class PosixMq\<close>: the descriptor (\<^verbatim>\<open>mqd_ != (mqd_t)-1\<close> is \<open>mqd_open\<close>) and the
  configuration it was opened with.
\<close>

record PosixMq =
  mqd_open :: bool
  cfg :: MqConfig

text \<open>
  What the kernel answers to one \<^verbatim>\<open>mq_send\<close> call: 0, or -1 with \<^verbatim>\<open>EAGAIN\<close>, or -1 with
  another \<^verbatim>\<open>errno\<close>. The answer is the environment's; the adapter only reacts to it.
\<close>

datatype sys_send = Delivered | WouldBlock | Failed

text \<open>The two \<^verbatim>\<open>std::runtime_error\<close>s that \<^verbatim>\<open>PosixMq::send\<close> throws.\<close>

datatype mq_error = MsgTooLarge | MqSendFailed

text \<open>\<^verbatim>\<open>static_cast<size_t>(cfg_.msgsize)\<close>: a \<^verbatim>\<open>long\<close> read as a 64-bit unsigned value.\<close>

definition size_t_of_long :: "int \<Rightarrow> nat" where
  "size_t_of_long m = nat (m mod 2 ^ 64)"

text \<open>
  \<^verbatim>\<open>PosixMq::send(data, len, prio)\<close>. The last argument is the queue's content (the messages
  delivered to it so far); it grows only when \<^verbatim>\<open>mq_send\<close> is called and the kernel accepts
  the message. \<open>Inl\<close> is the exception, \<open>Inr\<close> the returned flag.
\<close>

definition send :: "PosixMq \<Rightarrow> byte list \<Rightarrow> sys_send \<Rightarrow> byte list list
    \<Rightarrow> (mq_error + bool) \<times> byte list list" where
  "send q data sys bus =
     (if \<not> mqd_open q then (Inr False, bus)
      else if length data > size_t_of_long (msgsize (cfg q)) then (Inl MsgTooLarge, bus)
      else (case sys of
              Delivered \<Rightarrow> (Inr True, bus @ [data])
            | WouldBlock \<Rightarrow> (Inr False, bus)
            | Failed \<Rightarrow> (Inl MqSendFailed, bus)))"


section \<open>Routing server (src/routing_server.cpp)\<close>

text \<open>
  \<^verbatim>\<open>struct Pending\<close>: the completion flag (the field \<^verbatim>\<open>done\<close>) and the response. The mutex
  and the condition variable carry no data.
\<close>

record Pending =
  done_flag :: bool
  resp :: string

record Conn =
  fd :: int
  inbuf :: string
  outq :: "string list"
  want_write :: bool

text \<open>
  A worker task as the lambda captures it: the connection's descriptor, the correlation id,
  the \<^verbatim>\<open>shared_ptr<Pending>\<close> (an address in the store of slots) and the request line.
\<close>

type_synonym Task = "int \<times> 64 word \<times> nat \<times> string"

text \<open>
  The state \<^verbatim>\<open>main\<close> and its threads share: the counter of \<^verbatim>\<open>next_corr_id\<close>, the pending
  table (an \<^verbatim>\<open>unordered_map\<close>, here a list of entries with distinct keys, whose length is
  \<^verbatim>\<open>size()\<close>), the \<^verbatim>\<open>Pending\<close> objects that \<^verbatim>\<open>make_shared\<close> has allocated (a store:
  the table and the worker hold the same address), the connection table, the thread pool's
  queue, and the request queue with the messages delivered to it.
\<close>

record Server =
  g :: "64 word"
  pending :: "(64 word \<times> nat) list"
  slots :: "nat \<Rightarrow> Pending"
  nslots :: nat
  conns :: "int \<rightharpoonup> Conn"
  pool :: "Task list"
  mq_req :: PosixMq
  req_bus :: "byte list list"

definition MAX_PENDING :: nat where
  "MAX_PENDING = 100000"

definition NL :: char where
  "NL = CHR 0x0A"

definition CR :: char where
  "CR = CHR 0x0D"

definition BUSY_LINE :: string where
  "BUSY_LINE = ''{\"status\":\"BUSY\",\"reason\":\"overload\"}'' @ [NL]"

definition MQ_FULL :: string where
  "MQ_FULL = ''{\"status\":\"ERROR\",\"reason\":\"mq_full\"}''"

definition FLX_TIMEOUT :: string where
  "FLX_TIMEOUT = ''{\"status\":\"TIMEOUT\",\"reason\":\"flx_no_response\"}''"

text \<open>\<^verbatim>\<open>unordered_map::emplace\<close> inserts only when the key is absent; \<^verbatim>\<open>erase\<close> removes the key.\<close>

definition emplace :: "'k \<Rightarrow> 'v \<Rightarrow> ('k \<times> 'v) list \<Rightarrow> ('k \<times> 'v) list" where
  "emplace k v m = (case map_of m k of None \<Rightarrow> m @ [(k, v)] | Some _ \<Rightarrow> m)"

definition erase :: "'k \<Rightarrow> ('k \<times> 'v) list \<Rightarrow> ('k \<times> 'v) list" where
  "erase k m = filter (\<lambda>e. fst e \<noteq> k) m"

text \<open>\<^verbatim>\<open>s.find(c, pos)\<close> on a \<^verbatim>\<open>std::string\<close>; \<^verbatim>\<open>npos\<close> is \<^const>\<open>None\<close>.\<close>

fun index_of :: "char \<Rightarrow> string \<Rightarrow> nat option" where
  "index_of c [] = None"
| "index_of c (x # xs) = (if x = c then Some 0 else map_option Suc (index_of c xs))"

definition find_char :: "string \<Rightarrow> char \<Rightarrow> nat \<Rightarrow> nat option" where
  "find_char s c pos = map_option (\<lambda>i. pos + i) (index_of c (drop pos s))"

text \<open>\<^verbatim>\<open>trim_newline\<close>: pop the last character while it is a line feed or a carriage return.\<close>

function trim_newline :: "string \<Rightarrow> string" where
  "trim_newline s =
     (if s \<noteq> [] \<and> (last s = NL \<or> last s = CR) then trim_newline (butlast s) else s)"
  by pat_completeness auto
termination
  by (relation "measure length") auto

text \<open>\<^verbatim>\<open>enable_write(fd, on)\<close>: nothing for an unknown descriptor, else the flag is set.\<close>

definition enable_write :: "int \<Rightarrow> bool \<Rightarrow> Server \<Rightarrow> Server" where
  "enable_write cfd on st =
     (case conns st cfd of
        None \<Rightarrow> st
      | Some c \<Rightarrow> st\<lparr>conns := (conns st)(cfd \<mapsto> c\<lparr>want_write := on\<rparr>)\<rparr>)"

text \<open>\<^verbatim>\<open>outq.emplace_back(line)\<close> on the connection of a descriptor that is in the table.\<close>

definition push_out :: "int \<Rightarrow> string \<Rightarrow> Server \<Rightarrow> Server" where
  "push_out cfd line st =
     (case conns st cfd of
        None \<Rightarrow> st
      | Some c \<Rightarrow> st\<lparr>conns := (conns st)(cfd \<mapsto> c\<lparr>outq := outq c @ [line]\<rparr>)\<rparr>)"

text \<open>
  \<^verbatim>\<open>next_corr_id\<close> (include/common.hpp): \<^verbatim>\<open>fetch_add(1)\<close> on the 64-bit counter returns the
  value before the addition, which wraps.
\<close>

definition next_corr_id :: "Server \<Rightarrow> 64 word \<times> Server" where
  "next_corr_id st = (g st, st\<lparr>g := g st + 1\<rparr>)"

text \<open>\<^verbatim>\<open>std::make_shared<Pending>()\<close>: a new object, not done, with an empty response.\<close>

definition make_shared_Pending :: "Server \<Rightarrow> nat \<times> Server" where
  "make_shared_Pending st =
     (nslots st, st\<lparr>slots := (slots st)(nslots st := \<lparr>done_flag = False, resp = []\<rparr>),
                    nslots := nslots st + 1\<rparr>)"

text \<open>
  The request path of the event loop for one non-empty line (lines 229 to 284): the
  backpressure test, then \<^verbatim>\<open>next_corr_id\<close>, \<^verbatim>\<open>make_shared<Pending>\<close>,
  \<^verbatim>\<open>pending.emplace\<close> and \<^verbatim>\<open>pool.submit\<close>.
\<close>

definition request_path :: "int \<Rightarrow> string \<Rightarrow> Server \<Rightarrow> Server" where
  "request_path cfd line st =
     (if length (pending st) > MAX_PENDING
      then enable_write cfd True (push_out cfd BUSY_LINE st)
      else (case next_corr_id st of (corr, st1) \<Rightarrow>
             (case make_shared_Pending st1 of (pend, st2) \<Rightarrow>
                st2\<lparr>pending := emplace corr pend (pending st2),
                    pool := pool st2 @ [(cfd, corr, pend, line)]\<rparr>)))"

text \<open>
  The table as the counter leaves it while it has not wrapped: the keys are distinct and
  each was drawn before the counter's present value.
\<close>

definition pending_fresh :: "Server \<Rightarrow> bool" where
  "pending_fresh st =
     (distinct (map fst (pending st)) \<and> (\<forall>k \<in> fst ` set (pending st). unat k < unat (g st)))"

definition inbuf_len :: "int \<Rightarrow> Server \<Rightarrow> nat" where
  "inbuf_len cfd st = (case conns st cfd of None \<Rightarrow> 0 | Some c \<Rightarrow> length (inbuf c))"

text \<open>
  The line splitter (lines 221 to 285), for the connection the event was raised on: take the
  text up to the first line feed off the input buffer, trim it, skip it when nothing is
  left, else run the request path; stop when the buffer holds no line feed.
\<close>

function split_lines :: "int \<Rightarrow> Server \<Rightarrow> Server" where
  "split_lines cfd st =
     (case conns st cfd of
        None \<Rightarrow> st
      | Some c \<Rightarrow>
          (case find_char (inbuf c) NL 0 of
             None \<Rightarrow> st
           | Some pos \<Rightarrow>
               let line = trim_newline (take (pos + 1) (inbuf c));
                   st1 = st\<lparr>conns := (conns st)(cfd \<mapsto> c\<lparr>inbuf := drop (pos + 1) (inbuf c)\<rparr>)\<rparr>
               in if line = [] then split_lines cfd st1
                  else split_lines cfd (request_path cfd line st1)))"
  by pat_completeness auto
termination
proof (relation "measure (\<lambda>(cfd, st). inbuf_len cfd st)")
  show "wf (measure (\<lambda>(cfd, st). inbuf_len cfd st))"
    by simp
next
  fix cfd :: int and st :: Server and c pos line st1
  assume c: "conns st cfd = Some c" and pos: "find_char (inbuf c) NL 0 = Some pos"
    and st1: "st1 = st\<lparr>conns := (conns st)(cfd \<mapsto> c\<lparr>inbuf := drop (pos + 1) (inbuf c)\<rparr>)\<rparr>"
  have "pos < length (inbuf c)"
  proof -
    have "index_of ch xs = Some i \<Longrightarrow> i < length xs" for ch xs i
      by (induction xs arbitrary: i) (auto split: if_splits)
    then show ?thesis
      using pos by (auto simp: find_char_def)
  qed
  then have less: "length (drop (pos + 1) (inbuf c)) < length (inbuf c)"
    by simp
  show "((cfd, st1), (cfd, st)) \<in> measure (\<lambda>(cfd, st). inbuf_len cfd st)"
    using c less by (simp add: inbuf_len_def st1)
  show "((cfd, request_path cfd line st1), (cfd, st)) \<in> measure (\<lambda>(cfd, st). inbuf_len cfd st)"
    using c less
    by (simp add: inbuf_len_def st1 request_path_def next_corr_id_def make_shared_Pending_def enable_write_def push_out_def Let_def)
qed

text \<open>
  The read branch for \<open>r > 0\<close> bytes (lines 218 to 285): append them to the input buffer of
  the connection, then split the buffer into lines.
\<close>

definition on_read :: "int \<Rightarrow> string \<Rightarrow> Server \<Rightarrow> Server" where
  "on_read cfd data st =
     (case conns st cfd of
        None \<Rightarrow> st
      | Some c \<Rightarrow> split_lines cfd (st\<lparr>conns := (conns st)(cfd \<mapsto> c\<lparr>inbuf := inbuf c @ data\<rparr>)\<rparr>))"

text \<open>
  The response dispatcher's handling of one message received from the response queue
  (lines 126 to 142): unpack, type test, look the correlation id up, erase the entry, and
  store the payload in the slot with the flag set. The store is unconditional: the slot's
  flag is not read.
\<close>

definition dispatch :: "byte list \<Rightarrow> Server \<Rightarrow> Server" where
  "dispatch data st =
     (case unpack data of
        None \<Rightarrow> st
      | Some (h, payload) \<Rightarrow>
          if type h \<noteq> msgtype_code RouteResp then st
          else (case map_of (pending st) (corr_id h) of
                  None \<Rightarrow> st
                | Some p \<Rightarrow>
                    st\<lparr>pending := erase (corr_id h) (pending st),
                       slots := (slots st)(p := (slots st p)\<lparr>resp := payload, done_flag := True\<rparr>)\<rparr>))"

text \<open>
  The retry loop of the worker (lines 251 to 255): at most 1000 calls of \<^verbatim>\<open>send\<close>, ended by
  the first that returns \<^verbatim>\<open>true\<close> or throws. \<open>os k\<close> is the kernel's answer to attempt \<open>k\<close>.
\<close>

function send_loop :: "PosixMq \<Rightarrow> byte list \<Rightarrow> (nat \<Rightarrow> sys_send) \<Rightarrow> nat \<Rightarrow> byte list list
    \<Rightarrow> (mq_error + bool) \<times> byte list list" where
  "send_loop q msg os k bus =
     (if k < 1000
      then (case send q msg (os k) bus of
              (Inl e, bus') \<Rightarrow> (Inl e, bus')
            | (Inr True, bus') \<Rightarrow> (Inr True, bus')
            | (Inr False, bus') \<Rightarrow> send_loop q msg os (k + 1) bus')
      else (Inr False, bus))"
  by pat_completeness auto
termination
  by (relation "measure (\<lambda>(q, msg, os, k, bus). 1000 - k)") auto

text \<open>
  The first part of a worker task (lines 248 to 261): pack, the retry loop, and the local
  completion with \<^const>\<open>MQ_FULL\<close> when nothing was sent. An exception leaves the \<^verbatim>\<open>try\<close> block.
\<close>

definition worker_send :: "Task \<Rightarrow> (nat \<Rightarrow> sys_send) \<Rightarrow> Server \<Rightarrow> mq_error + Server" where
  "worker_send task os st =
     (case task of (cfd, corr, pend, req) \<Rightarrow>
        let msg = pack RouteReq corr req in
        (case send_loop (mq_req st) msg os 0 (req_bus st) of
           (Inl e, bus') \<Rightarrow> Inl e
         | (Inr sent, bus') \<Rightarrow>
             let st1 = st\<lparr>req_bus := bus'\<rparr> in
             Inr (if \<not> sent
                  then st1\<lparr>slots := (slots st1)(pend := (slots st1 pend)\<lparr>resp := MQ_FULL, done_flag := True\<rparr>)\<rparr>
                  else st1)))"

text \<open>
  \<^verbatim>\<open>cv.wait_for(lk, 500ms, [&]{ return pend->done; })\<close>. While the worker waits, the
  dispatcher handles the messages that arrive on the response queue before the deadline, in
  order; the wait ends as soon as the flag is set, and at the deadline (no message left) it
  returns the flag.
\<close>

fun wait_for :: "nat \<Rightarrow> byte list list \<Rightarrow> Server \<Rightarrow> bool \<times> Server" where
  "wait_for pend [] st = (done_flag (slots st pend), st)"
| "wait_for pend (m # ms) st =
     (if done_flag (slots st pend) then (True, st) else wait_for pend ms (dispatch m st))"

text \<open>The bounded wait with the local completion on timeout (lines 264 to 270).\<close>

definition worker_wait :: "Task \<Rightarrow> byte list list \<Rightarrow> Server \<Rightarrow> Server" where
  "worker_wait task arrivals st =
     (case task of (cfd, corr, pend, req) \<Rightarrow>
        (case wait_for pend arrivals st of
           (completed, st1) \<Rightarrow>
             if \<not> completed
             then st1\<lparr>slots := (slots st1)(pend := (slots st1 pend)\<lparr>resp := FLX_TIMEOUT, done_flag := True\<rparr>)\<rparr>
             else st1))"

text \<open>
  The last part (lines 273 to 280): the slot's response and a line feed go to the output
  queue of the connection, when the descriptor is still in the table.
\<close>

definition worker_reply :: "Task \<Rightarrow> Server \<Rightarrow> Server" where
  "worker_reply task st =
     (case task of (cfd, corr, pend, req) \<Rightarrow>
        let resp_line = resp (slots st pend) @ [NL] in
        (case conns st cfd of
           None \<Rightarrow> st
         | Some c \<Rightarrow> enable_write cfd True (push_out cfd resp_line st)))"

text \<open>The dispatcher handling a run of messages, in the order received.\<close>

fun dispatch_all :: "byte list list \<Rightarrow> Server \<Rightarrow> Server" where
  "dispatch_all [] st = st"
| "dispatch_all (m # ms) st = dispatch_all ms (dispatch m st)"

text \<open>
  A whole worker task. The \<^verbatim>\<open>catch\<close> clause only logs, so an exception ends the task with
  the state as it was. The dispatcher is let in twice: while the worker blocks in the bounded
  wait (\<open>arrivals\<close>), and after the worker has released the slot's mutex at line 270 and
  before it reads \<^verbatim>\<open>pend->resp\<close>, without the mutex, at line 273 (\<open>late\<close>).
\<close>

definition worker_task :: "Task \<Rightarrow> (nat \<Rightarrow> sys_send) \<Rightarrow> byte list list \<Rightarrow> byte list list
    \<Rightarrow> Server \<Rightarrow> Server" where
  "worker_task task os arrivals late st =
     (case worker_send task os st of
        Inl e \<Rightarrow> st
      | Inr st1 \<Rightarrow> worker_reply task (dispatch_all late (worker_wait task arrivals st1)))"

text \<open>
  The server after start-up: the counter at 1, no pending entry, no connection, the request
  queue opened as \<^verbatim>\<open>MqConfig{REQ, 2048, 8192, false, true}\<close>.
\<close>

definition server_init :: Server where
  "server_init = \<lparr>g = 1, pending = [], slots = (\<lambda>_. \<lparr>done_flag = False, resp = []\<rparr>), nslots = 0,
     conns = Map.empty, pool = [],
     mq_req = \<lparr>mqd_open = True,
               cfg = \<lparr>name = ''/tr_mq_req'', maxmsg = 2048, msgsize = 8192, create = False,
                      nonblock = True\<rparr>\<rparr>,
     req_bus = []\<rparr>"

text \<open>\<^verbatim>\<open>conns.emplace(cfd, Conn{cfd})\<close> on accept.\<close>

definition accept_conn :: "int \<Rightarrow> Server \<Rightarrow> Server" where
  "accept_conn cfd st =
     (case conns st cfd of
        None \<Rightarrow> st\<lparr>conns := (conns st)(cfd \<mapsto> \<lparr>fd = cfd, inbuf = [], outq = [], want_write = False\<rparr>)\<rparr>
      | Some _ \<Rightarrow> st)"


section \<open>Subscriber registry and routing policy (include/alr_store.hpp)\<close>

record AlrRecord =
  imsi :: string
  serving_msc :: string
  serving_vlr :: string
  region :: string

text \<open>The three records the constructor of \<^verbatim>\<open>AlrStore\<close> seeds.\<close>

definition db :: "string \<rightharpoonup> AlrRecord" where
  "db = [''+14085551234'' \<mapsto> \<lparr>imsi = ''310150123456789'', serving_msc = ''MSC_DALLAS_01'',
                               serving_vlr = ''VLR_DAL_01'', region = ''US-SOUTH''\<rparr>,
         ''+12125550123'' \<mapsto> \<lparr>imsi = ''310150987654321'', serving_msc = ''MSC_NYC_01'',
                               serving_vlr = ''VLR_NYC_01'', region = ''US-EAST''\<rparr>,
         ''+442079460123'' \<mapsto> \<lparr>imsi = ''234150111222333'', serving_msc = ''MSC_LON_01'',
                                serving_vlr = ''VLR_LON_01'', region = ''UK''\<rparr>]"

definition lookup_msisdn :: "string \<Rightarrow> AlrRecord option" where
  "lookup_msisdn msisdn = db msisdn"

definition route_policy :: "AlrRecord \<Rightarrow> string" where
  "route_policy r =
     (if region r = ''US-EAST'' then ''ROUTE_GROUP_EAST''
      else if region r = ''US-SOUTH'' then ''ROUTE_GROUP_SOUTH''
      else ''ROUTE_GROUP_INTL'')"


section \<open>FLX engine (src/flx_engine.cpp)\<close>

text \<open>\<^verbatim>\<open>s.find(pat, pos)\<close> for a string pattern.\<close>

fun index_of_str :: "string \<Rightarrow> string \<Rightarrow> nat option" where
  "index_of_str pat [] = (if pat = [] then Some 0 else None)"
| "index_of_str pat (x # xs) =
     (if prefix pat (x # xs) then Some 0 else map_option Suc (index_of_str pat xs))"

definition find_str :: "string \<Rightarrow> string \<Rightarrow> nat \<Rightarrow> nat option" where
  "find_str s pat pos =
     (if pos > length s then None else map_option (\<lambda>i. pos + i) (index_of_str pat (drop pos s)))"

definition QUOTE :: char where
  "QUOTE = CHR 0x22"

text \<open>
  \<^verbatim>\<open>json_get_string(j, key)\<close>: the quoted key, the next colon, the next quote, the quote after
  it; the text between the two quotes (\<^verbatim>\<open>substr\<close>), or the empty string when a search fails.
\<close>

definition json_get_string :: "string \<Rightarrow> string \<Rightarrow> string" where
  "json_get_string j key =
     (let pat = [QUOTE] @ key @ [QUOTE] in
      case find_str j pat 0 of
        None \<Rightarrow> []
      | Some k \<Rightarrow>
          (case find_char j (CHR '':'') (k + length pat) of
             None \<Rightarrow> []
           | Some colon \<Rightarrow>
               (case find_char j QUOTE colon of
                  None \<Rightarrow> []
                | Some q1 \<Rightarrow>
                    (case find_char j QUOTE (q1 + 1) of
                       None \<Rightarrow> []
                     | Some q2 \<Rightarrow> take (q2 - (q1 + 1)) (drop (q1 + 1) j)))))"

text \<open>\<^verbatim>\<open>ostream << uint64_t\<close>: the decimal digits, most significant first.\<close>

definition digit :: "nat \<Rightarrow> char" where
  "digit n = ''0123456789'' ! n"

function to_decimal :: "nat \<Rightarrow> string" where
  "to_decimal n = (if n < 10 then [digit n] else to_decimal (n div 10) @ [digit (n mod 10)])"
  by pat_completeness auto
termination
  by (relation "measure id") auto

definition show_u64 :: "64 word \<Rightarrow> string" where
  "show_u64 w = to_decimal (unat w)"

text \<open>
  The response text the engine builds (lines 72 to 93), piece by piece as the stream receives
  them; \<open>lat\<close> is \<^verbatim>\<open>t1 - t0\<close>.
\<close>

definition build_resp :: "64 word \<Rightarrow> string \<Rightarrow> string \<Rightarrow> 64 word \<Rightarrow> string" where
  "build_resp corr op msisdn lat =
     ''{''
     @ ''\"corr_id\":'' @ show_u64 corr @ '',''
     @ ''\"op\":\"'' @ (if op = [] then ''route'' else op) @ ''\",''
     @ ''\"msisdn\":\"'' @ msisdn @ ''\",''
     @ (case lookup_msisdn msisdn of
          None \<Rightarrow>
            ''\"status\":\"NOT_FOUND\",''
            @ ''\"reason\":\"subscriber_not_in_alr\"''
        | Some r \<Rightarrow>
            ''\"status\":\"OK\",''
            @ ''\"imsi\":\"'' @ imsi r @ ''\",''
            @ ''\"serving_msc\":\"'' @ serving_msc r @ ''\",''
            @ ''\"serving_vlr\":\"'' @ serving_vlr r @ ''\",''
            @ ''\"route_group\":\"'' @ route_policy r @ ''\"'')
     @ '',\"flx_latency_ms\":'' @ show_u64 lat
     @ ''}''"

text \<open>
  The response payload for one message received from the request queue (lines 53 to 93), or
  \<^const>\<open>None\<close> when the message is dropped: nothing received, \<^verbatim>\<open>unpack\<close> fails, or the type
  is not \<^verbatim>\<open>RouteReq\<close>. \<open>t0\<close> and \<open>t1\<close> are the two readings of \<^verbatim>\<open>steady_millis\<close>.
\<close>

definition engine_payload :: "byte list \<Rightarrow> 64 word \<Rightarrow> 64 word \<Rightarrow> (64 word \<times> string) option" where
  "engine_payload data t0 t1 =
     (if length data = 0 then None
      else (case unpack data of
              None \<Rightarrow> None
            | Some (h, payload) \<Rightarrow>
                if type h \<noteq> msgtype_code RouteReq then None
                else let msisdn = json_get_string payload ''msisdn'';
                         op = json_get_string payload ''op''
                     in Some (corr_id h, build_resp (corr_id h) op msisdn (t1 - t0))))"

text \<open>The frame the engine hands to \<^verbatim>\<open>mq_resp.send\<close> (line 95).\<close>

definition engine_response :: "byte list \<Rightarrow> 64 word \<Rightarrow> 64 word \<Rightarrow> byte list option" where
  "engine_response data t0 t1 =
     map_option (\<lambda>(corr, text). pack RouteResp corr text) (engine_payload data t0 t1)"

text \<open>
  One turn of the engine loop on a received message: the response queue after the send
  (lines 95 to 100; an exception of \<^verbatim>\<open>send\<close> is logged and the message is dropped).
\<close>

definition engine_step :: "PosixMq \<Rightarrow> byte list \<Rightarrow> 64 word \<Rightarrow> 64 word \<Rightarrow> sys_send
    \<Rightarrow> byte list list \<Rightarrow> byte list list" where
  "engine_step q data t0 t1 sys bus =
     (case engine_response data t0 t1 of
        None \<Rightarrow> bus
      | Some out \<Rightarrow> snd (send q out sys bus))"


section \<open>Devices for reading a response text\<close>

text \<open>
  These are not code of the repository: they serve the proofs about the text the engine
  builds. \<open>splitq\<close> cuts a text at its quote characters; in the pieces of a text whose
  values hold no quote, a field shows as its key followed by a piece that starts with a
  colon, and a string field as the key, the colon and the value.
\<close>

fun splitq :: "string \<Rightarrow> string list" where
  "splitq [] = [[]]"
| "splitq (c # cs) =
     (if c = QUOTE then [] # splitq cs
      else (case splitq cs of [] \<Rightarrow> [[c]] | s # ss \<Rightarrow> (c # s) # ss))"

fun key_in :: "string \<Rightarrow> string list \<Rightarrow> bool" where
  "key_in k (a # b # rest) = ((a = k \<and> b \<noteq> [] \<and> hd b = CHR '':'') \<or> key_in k (b # rest))"
| "key_in k [a] = False"
| "key_in k [] = False"

fun val_in :: "string \<Rightarrow> string \<Rightarrow> string list \<Rightarrow> bool" where
  "val_in k v (a # b # c # rest) = ((a = k \<and> b = '':'' \<and> c = v) \<or> val_in k v (b # c # rest))"
| "val_in k v [a, b] = False"
| "val_in k v [a] = False"
| "val_in k v [] = False"

text \<open>
  The number a decimal numeral stands for, read digit by digit from the most significant:
  the yardstick for the decimal text the engine prints.
\<close>

definition digit_val :: "char \<Rightarrow> nat" where
  "digit_val c = of_char c - 48"

definition read_decimal :: "string \<Rightarrow> nat" where
  "read_decimal s = foldl (\<lambda>a c. 10 * a + digit_val c) 0 s"

text \<open>The two shapes of the text of \<^const>\<open>build_resp\<close>, by the outcome of the lookup.\<close>

definition not_found_text :: "string \<Rightarrow> string \<Rightarrow> string \<Rightarrow> string \<Rightarrow> string" where
  "not_found_text D OP M L =
     ''{\"corr_id\":'' @ D @ '',\"op\":\"'' @ OP @ ''\",\"msisdn\":\"'' @ M
     @ ''\",\"status\":\"NOT_FOUND\",\"reason\":\"subscriber_not_in_alr\",\"flx_latency_ms\":'' @ L @ ''}''"

definition ok_text :: "string \<Rightarrow> string \<Rightarrow> string \<Rightarrow> AlrRecord \<Rightarrow> string \<Rightarrow> string" where
  "ok_text D OP M r L =
     ''{\"corr_id\":'' @ D @ '',\"op\":\"'' @ OP @ ''\",\"msisdn\":\"'' @ M
     @ ''\",\"status\":\"OK\",\"imsi\":\"'' @ imsi r @ ''\",\"serving_msc\":\"'' @ serving_msc r
     @ ''\",\"serving_vlr\":\"'' @ serving_vlr r @ ''\",\"route_group\":\"'' @ route_policy r
     @ ''\",\"flx_latency_ms\":'' @ L @ ''}''"


section \<open>Example states\<close>

text \<open>A server with one client connected on descriptor 5, and a request line.\<close>

definition demo_server :: Server where
  "demo_server = accept_conn 5 server_init"

definition demo_line :: string where
  "demo_line = ''{\"msisdn\":\"+14085551234\",\"op\":\"route\"}''"

text \<open>The same server with one request accepted: correlation id 1, slot 0, one task queued.\<close>

definition demo_inflight :: Server where
  "demo_inflight = request_path 5 demo_line demo_server"

text \<open>The state after the worker has run that task with no response at all.\<close>

definition demo_timeout :: Server where
  "demo_timeout = worker_task (5, 1, 0, demo_line) (\<lambda>k. Delivered) [] [] demo_inflight"

text \<open>A request line whose frame is one byte above the queue's message size.\<close>

definition big_line :: string where
  "big_line = replicate 8169 CHR ''a''"

text \<open>A server whose table holds 100001 entries, the ids 1 to 100001.\<close>

definition busy_server :: Server where
  "busy_server = demo_server\<lparr>g := 100002,
     pending := map (\<lambda>i. (of_nat i, i - 1)) [1..<100002], nslots := 100001\<rparr>"


section \<open>Properties of the framing codec\<close>

lemma unat_of_char_byte: "unat (of_char c :: byte) = of_char c"
proof -
  have "(of_char c :: byte) = of_nat (of_char c)"
    by (simp add: of_nat_of_char)
  then have "unat (of_char c :: byte) = (of_char c :: nat) mod 256"
    by (simp add: unat_of_nat)
  then show ?thesis by simp
qed

lemma char_of_byte_of_char [simp]: "char_of_byte (byte_of_char c) = c"
  by (simp add: char_of_byte_def byte_of_char_def unat_of_char_byte)

lemma char_of_byte_comp [simp]: "char_of_byte \<circ> byte_of_char = id"
  by (rule ext) simp

lemma rd16_le16: "rd16 (le16 w @ rest) = w"
proof (rule bit_word_eqI)
  fix n assume "n < LENGTH(16)"
  then consider "n < 8" | "8 \<le> n \<and> n < 16"
    by fastforce
  then show "bit (rd16 (le16 w @ rest)) n = bit w n"
    by cases (auto simp add: rd16_def le16_def bit_simps)
qed

lemma rd32_le32: "rd32 (le32 w @ rest) = w"
proof (rule bit_word_eqI)
  fix n assume "n < LENGTH(32)"
  then consider "n < 8" | "8 \<le> n \<and> n < 16" | "16 \<le> n \<and> n < 24" | "24 \<le> n \<and> n < 32"
    by fastforce
  then show "bit (rd32 (le32 w @ rest)) n = bit w n"
    by cases (auto simp add: rd32_def le32_def bit_simps)
qed

lemma rd64_le64: "rd64 (le64 w @ rest) = w"
proof (rule bit_word_eqI)
  fix n assume "n < LENGTH(64)"
  then consider "n < 8" | "8 \<le> n \<and> n < 16" | "16 \<le> n \<and> n < 24" | "24 \<le> n \<and> n < 32"
     | "32 \<le> n \<and> n < 40" | "40 \<le> n \<and> n < 48" | "48 \<le> n \<and> n < 56" | "56 \<le> n \<and> n < 64"
    by fastforce
  then show "bit (rd64 (le64 w @ rest)) n = bit w n"
    by cases (auto simp add: rd64_def le64_def bit_simps)
qed

lemma length_le16 [simp]: "length (le16 w) = 2"
  by (simp add: le16_def)

lemma length_le32 [simp]: "length (le32 w) = 4"
  by (simp add: le32_def)

lemma length_le64 [simp]: "length (le64 w) = 8"
  by (simp add: le64_def)

lemma length_hdr_bytes [simp]: "length (hdr_bytes h) = 24"
  by (simp add: hdr_bytes_def)

lemma hdr_read_hdr_bytes: "hdr_read (hdr_bytes h @ rest) = h"
  by (simp add: hdr_read_def hdr_bytes_def rd16_le16 rd32_le32 rd64_le64)

lemma length_pack: "length (pack t c p) = 24 + length p"
  by (simp add: pack_def)

lemma unat_payload_len: "length (p :: string) < 2 ^ 32 \<Longrightarrow> unat (of_nat (length p) :: 32 word) = length p"
  by (simp add: unat_of_nat)

lemma unpack_pack:
  assumes "length p < 2 ^ 32"
  shows "unpack (pack t c p) =
     Some (\<lparr>magic = MAGIC, version = 1, type = msgtype_code t, corr_id = c,
            payload_len = of_nat (length p), reserved = 0\<rparr>, p)"
proof -
  let ?h = "\<lparr>magic = MAGIC, version = 1, type = msgtype_code t, corr_id = c,
             payload_len = of_nat (length p), reserved = 0\<rparr>"
  have rd: "hdr_read (pack t c p) = ?h"
    by (simp add: pack_def hdr_read_hdr_bytes)
  have len: "unat (of_nat (length p) :: 32 word) = length p"
    using assms by (rule unat_payload_len)
  have body: "drop 24 (pack t c p) = map byte_of_char p"
    by (simp add: pack_def)
  show "unpack (pack t c p) = Some (?h, p)"
    unfolding unpack_def Let_def rd
    by (simp add: len length_pack hdr_size_def body)
qed

text \<open>
  C1. For each message type, each 64-bit correlation id and each payload whose size fits in
  32 bits, \<^const>\<open>unpack\<close> accepts the bytes produced by \<^const>\<open>pack\<close> and returns the header
  with the magic tag, version 1, the type's code, the same correlation id, the payload's
  length, and the payload itself. The bus message-size cap plays no part in either function,
  so the statement holds in particular for the frames within the cap.
\<close>

theorem unpack_pack_roundtrip:
  assumes "length p < 2 ^ 32"
  shows "\<exists>h. unpack (pack t c p) = Some (h, p) \<and> magic h = 0x54524D51 \<and> version h = 1
     \<and> type h = msgtype_code t \<and> corr_id h = c \<and> unat (payload_len h) = length p
     \<and> reserved h = 0"
  using unpack_pack [OF assms, of t c] unat_payload_len [OF assms]
  by (simp add: MAGIC_def)

theorem unpack_pack_roundtrip_witness:
  "length ''{\"msisdn\":\"+14085551234\"}'' < (2::nat) ^ 32
   \<and> (\<exists>h. unpack (pack RouteReq 7 ''{\"msisdn\":\"+14085551234\"}'')
          = Some (h, ''{\"msisdn\":\"+14085551234\"}'')
        \<and> type h = 1 \<and> corr_id h = 7 \<and> unat (payload_len h) = 25)"
proof -
  have h: "length ''{\"msisdn\":\"+14085551234\"}'' < (2::nat) ^ 32"
    by simp
  show ?thesis
    using h unpack_pack_roundtrip [OF h, of RouteReq 7] by auto
qed

section \<open>Properties of the routing server\<close>

declare send_loop.simps [simp del] split_lines.simps [simp del] trim_newline.simps [simp del]
  to_decimal.simps [simp del]

lemma Pending_fill [simp]: "(p :: Pending)\<lparr>resp := r, done_flag := b\<rparr> = \<lparr>done_flag = b, resp = r\<rparr>"
  by (cases p) simp

lemma wait_for_done: "done_flag (slots st pend) \<Longrightarrow> wait_for pend ms st = (True, st)"
  by (cases ms) simp_all

subsection \<open>The example states\<close>

lemma demo_server_eq:
  "demo_server = server_init\<lparr>conns := [5 \<mapsto> \<lparr>fd = 5, inbuf = [], outq = [], want_write = False\<rparr>]\<rparr>"
  by (simp add: demo_server_def accept_conn_def server_init_def)

lemma demo_inflight_eq:
  "demo_inflight = server_init\<lparr>g := 2,
     slots := (slots server_init)(0 := \<lparr>done_flag = False, resp = []\<rparr>), nslots := 1,
     pending := [(1, 0)], pool := [(5, 1, 0, demo_line)],
     conns := [5 \<mapsto> \<lparr>fd = 5, inbuf = [], outq = [], want_write = False\<rparr>]\<rparr>"
  by (simp add: demo_inflight_def demo_server_eq request_path_def next_corr_id_def make_shared_Pending_def server_init_def MAX_PENDING_def
      emplace_def)

lemma fresh_key_busy:
  assumes "n \<le> m" and "m < 2 ^ 64"
  shows "map_of (map (\<lambda>i. (of_nat i :: 64 word, f i)) [a..<n]) (of_nat m) = None"
  unfolding map_of_eq_None_iff
proof
  assume "of_nat m \<in> fst ` set (map (\<lambda>i. (of_nat i :: 64 word, f i)) [a..<n])"
  then obtain i where i: "i < n" and eq: "(of_nat i :: 64 word) = of_nat m"
    by auto
  have u: "unat (of_nat k :: 64 word) = k" if "k < 2 ^ 64" for k :: nat
    using that by (simp add: unat_of_nat)
  have bi: "i < 2 ^ 64"
    using i assms by simp
  from eq have "unat (of_nat i :: 64 word) = unat (of_nat m :: 64 word)"
    by (rule arg_cong)
  then have "i = m"
    unfolding u [OF bi] u [OF assms(2)] .
  then show False
    using i assms by simp
qed

lemma demo_msg_fits: "length (pack RouteReq 1 demo_line) \<le> 8192"
  by (simp add: length_pack demo_line_def)

lemma send_demo:
  "send (mq_req demo_inflight) (pack RouteReq 1 demo_line) sys bus =
     (case sys of Delivered \<Rightarrow> (Inr True, bus @ [pack RouteReq 1 demo_line])
      | WouldBlock \<Rightarrow> (Inr False, bus) | Failed \<Rightarrow> (Inl MqSendFailed, bus))"
  using demo_msg_fits
  by (simp add: send_def demo_inflight_eq server_init_def size_t_of_long_def)

lemma worker_send_delivered:
  "worker_send (5, 1, 0, demo_line) (\<lambda>k. Delivered) demo_inflight =
     Inr (demo_inflight\<lparr>req_bus := [pack RouteReq 1 demo_line]\<rparr>)"
proof -
  have "send_loop (mq_req demo_inflight) (pack RouteReq 1 demo_line) (\<lambda>k. Delivered) 0 []
      = (Inr True, [pack RouteReq 1 demo_line])"
    by (subst send_loop.simps) (simp add: send_demo)
  then show ?thesis
    by (simp add: worker_send_def demo_inflight_eq server_init_def)
qed

lemma demo_timeout_eq:
  "demo_timeout = demo_inflight\<lparr>req_bus := [pack RouteReq 1 demo_line],
     slots := (slots demo_inflight)(0 := \<lparr>done_flag = True, resp = FLX_TIMEOUT\<rparr>),
     conns := [5 \<mapsto> \<lparr>fd = 5, inbuf = [], outq = [FLX_TIMEOUT @ [NL]], want_write = True\<rparr>]\<rparr>"
  unfolding demo_timeout_def worker_task_def worker_send_delivered
  by (simp add: worker_wait_def worker_reply_def push_out_def enable_write_def
      demo_inflight_eq server_init_def)

lemma unpack_late:
  "unpack (pack RouteResp 1 ''{\"status\":\"OK\"}'') =
     Some (\<lparr>magic = MAGIC, version = 1, type = 2, corr_id = 1, payload_len = 15, reserved = 0\<rparr>,
           ''{\"status\":\"OK\"}'')"
  using unpack_pack [of "''{\"status\":\"OK\"}''" RouteResp 1] by simp

subsection \<open>Backpressure and the request path\<close>

lemma map_of_emplace_fresh: "map_of m k = None \<Longrightarrow> emplace k v m = m @ [(k, v)]"
  by (simp add: emplace_def)

lemma request_path_busy:
  assumes "conns st cfd = Some c" and "length (pending st) > MAX_PENDING"
  shows "request_path cfd line st =
     st\<lparr>conns := (conns st)(cfd \<mapsto> c\<lparr>outq := outq c @ [BUSY_LINE], want_write := True\<rparr>)\<rparr>"
  using assms by (simp add: request_path_def next_corr_id_def make_shared_Pending_def enable_write_def push_out_def)

lemma request_path_accept:
  assumes "\<not> length (pending st) > MAX_PENDING" and "map_of (pending st) (g st) = None"
  shows "request_path cfd line st =
     st\<lparr>g := g st + 1,
        slots := (slots st)(nslots st := \<lparr>done_flag = False, resp = []\<rparr>),
        nslots := nslots st + 1,
        pending := pending st @ [(g st, nslots st)],
        pool := pool st @ [(cfd, g st, nslots st, line)]\<rparr>"
  using assms by (simp add: request_path_def next_corr_id_def make_shared_Pending_def Let_def map_of_emplace_fresh)

text \<open>
  C2. For a request line handed to the request path on a connection of the table: when the
  pending table holds more than 100000 entries, the line \<^verbatim>\<open>{"status":"BUSY","reason":"overload"}\<close>
  with a line feed is appended to that connection's output queue and its write interest is
  set, while the counter, the table, the store of slots and the pool's queue stay as they
  were; otherwise the counter's value is taken as the correlation id and the counter moves
  on by one, a fresh slot (not done, empty response) is allocated and entered in the table
  under that id, and a task bound to the descriptor, the id, the slot and the line is
  queued. The id drawn is assumed not to be a key of the table already (as holds for a
  counter that has not wrapped, see \<open>pending_fresh_unused\<close> and the lemmas after it), since
  \<^verbatim>\<open>emplace\<close> inserts nothing under a key that is present.
\<close>

theorem request_path_backpressure:
  assumes "conns st cfd = Some c" and "map_of (pending st) (g st) = None"
  shows "let st' = request_path cfd line st in
     if length (pending st) > 100000
     then conns st' cfd = Some (c\<lparr>outq := outq c @ [''{\"status\":\"BUSY\",\"reason\":\"overload\"}'' @ [CHR 0x0A]],
                                  want_write := True\<rparr>)
        \<and> g st' = g st \<and> pending st' = pending st \<and> slots st' = slots st
        \<and> nslots st' = nslots st \<and> pool st' = pool st
     else g st' = g st + 1
        \<and> map_of (pending st') (g st) = Some (nslots st)
        \<and> length (pending st') = length (pending st) + 1
        \<and> slots st' (nslots st) = \<lparr>done_flag = False, resp = []\<rparr>
        \<and> pool st' = pool st @ [(cfd, g st, nslots st, line)]
        \<and> conns st' = conns st"
proof (cases "length (pending st) > MAX_PENDING")
  case True
  then show ?thesis
    using request_path_busy [OF assms(1) True, of line]
    by (simp add: MAX_PENDING_def BUSY_LINE_def NL_def)
next
  case False
  then show ?thesis
    using request_path_accept [OF False assms(2), of cfd line] assms(2)
    by (simp add: MAX_PENDING_def map_add_def)
qed

theorem request_path_backpressure_witness:
  "conns (request_path 5 demo_line busy_server) 5 =
      Some \<lparr>fd = 5, inbuf = [], outq = [''{\"status\":\"BUSY\",\"reason\":\"overload\"}'' @ [CHR 0x0A]],
            want_write = True\<rparr>
   \<and> g (request_path 5 demo_line busy_server) = 100002
   \<and> length (pending (request_path 5 demo_line busy_server)) = 100001
   \<and> pool (request_path 5 demo_line busy_server) = []
   \<and> g (request_path 5 demo_line demo_server) = 2
   \<and> map_of (pending (request_path 5 demo_line demo_server)) 1 = Some 0
   \<and> pool (request_path 5 demo_line demo_server) = [(5, 1, 0, demo_line)]"
proof -
  have c1: "conns busy_server 5 = Some \<lparr>fd = 5, inbuf = [], outq = [], want_write = False\<rparr>"
    by (simp add: busy_server_def demo_server_eq)
  have f1: "map_of (pending busy_server) (g busy_server) = None"
    using fresh_key_busy [of 100002 100002 "\<lambda>i. i - 1" 1] by (simp add: busy_server_def)
  have l1: "length (pending busy_server) = 100001"
    by (simp add: busy_server_def)
  have c2: "conns demo_server 5 = Some \<lparr>fd = 5, inbuf = [], outq = [], want_write = False\<rparr>"
    by (simp add: demo_server_eq)
  have f2: "map_of (pending demo_server) (g demo_server) = None"
    by (simp add: demo_server_eq server_init_def)
  have g2: "g demo_server = 1" "nslots demo_server = 0" "pool demo_server = []"
    "length (pending demo_server) = 0"
    by (simp_all add: demo_server_eq server_init_def)
  have g1: "g busy_server = 100002" "pool busy_server = []"
    by (simp_all add: busy_server_def demo_server_eq server_init_def)
  show ?thesis
    using request_path_backpressure [OF c1 f1, of demo_line]
      request_path_backpressure [OF c2 f2, of demo_line]
    by (simp add: Let_def l1 g1 g2)
qed

subsection \<open>Blank lines\<close>

lemma split_lines_done:
  assumes "conns st cfd = Some c" and "find_char (inbuf c) NL 0 = None"
  shows "split_lines cfd st = st"
  using assms by (subst split_lines.simps) simp

lemma trim_newline_blank: "trim_newline (replicate n CR @ [NL]) = []"
proof -
  have cr: "trim_newline (replicate k CR) = []" for k
  proof (induction k)
    case 0 show ?case by (simp add: trim_newline.simps)
  next
    case (Suc k)
    have "replicate (Suc k) CR = replicate k CR @ [CR]"
      by (simp add: replicate_append_same)
    then show ?case using Suc by (subst trim_newline.simps) simp
  qed
  show ?thesis
    by (subst trim_newline.simps) (simp add: cr)
qed

lemma index_of_blank: "index_of NL (replicate n CR @ [NL]) = Some n"
  by (induction n) (simp_all add: NL_def CR_def)

text \<open>
  C10. When the text up to the first line feed of a connection's input buffer is empty after
  \<^const>\<open>trim_newline\<close> (a bare line feed, or carriage returns and a line feed), the line
  splitter goes on with the state in which that text has been taken off the buffer and
  nothing else has changed: no line on the output queue, the counter, the pending table, the
  slots and the pool's queue as before. In particular, on a buffer that holds one such line
  and nothing more, the splitter returns the state it was given with the buffer emptied.
\<close>

theorem empty_line_skipped:
  assumes "conns st cfd = Some c"
  shows "(find_char (inbuf c) NL 0 = Some pos \<and> trim_newline (take (pos + 1) (inbuf c)) = []
        \<longrightarrow> split_lines cfd st =
            split_lines cfd (st\<lparr>conns := (conns st)(cfd \<mapsto> c\<lparr>inbuf := drop (pos + 1) (inbuf c)\<rparr>)\<rparr>))
     \<and> (inbuf c = replicate n CR @ [NL]
        \<longrightarrow> split_lines cfd st = st\<lparr>conns := (conns st)(cfd \<mapsto> c\<lparr>inbuf := []\<rparr>)\<rparr>)"
proof (intro conjI impI)
  assume "find_char (inbuf c) NL 0 = Some pos \<and> trim_newline (take (pos + 1) (inbuf c)) = []"
  then show "split_lines cfd st =
      split_lines cfd (st\<lparr>conns := (conns st)(cfd \<mapsto> c\<lparr>inbuf := drop (pos + 1) (inbuf c)\<rparr>)\<rparr>)"
    using assms by (subst split_lines.simps) (simp add: Let_def)
next
  assume buf: "inbuf c = replicate n CR @ [NL]"
  let ?st1 = "st\<lparr>conns := (conns st)(cfd \<mapsto> c\<lparr>inbuf := []\<rparr>)\<rparr>"
  have pos: "find_char (inbuf c) NL 0 = Some n"
    by (simp add: find_char_def buf index_of_blank)
  have trim: "trim_newline (take (n + 1) (inbuf c)) = []"
    by (simp add: buf trim_newline_blank)
  have "split_lines cfd st = split_lines cfd ?st1"
    using assms pos trim by (subst split_lines.simps) (simp add: Let_def buf)
  also have "\<dots> = ?st1"
    by (rule split_lines_done [where c = "c\<lparr>inbuf := []\<rparr>"]) (simp_all add: find_char_def)
  finally show "split_lines cfd st = ?st1" .
qed

theorem empty_line_skipped_witness:
  "on_read 5 [CR, NL] demo_server = demo_server \<and> on_read 5 [NL] demo_server = demo_server"
proof -
  let ?c = "\<lambda>buf. \<lparr>fd = 5, inbuf = buf, outq = [], want_write = False\<rparr>"
  let ?st = "\<lambda>buf. demo_server\<lparr>conns := [5 \<mapsto> ?c buf]\<rparr>"
  have rd: "on_read 5 buf demo_server = split_lines 5 (?st buf)" for buf
    by (simp add: on_read_def demo_server_eq)
  have c: "conns (?st buf) 5 = Some (?c buf)" for buf
    by simp
  have emp: "?st [] = demo_server"
    by (simp add: demo_server_eq)
  have "split_lines 5 (?st [CR, NL]) = ?st []"
    using empty_line_skipped [OF c, of "[CR, NL]" _ 1, THEN conjunct2] by simp
  moreover have "split_lines 5 (?st [NL]) = ?st []"
    using empty_line_skipped [OF c, of "[NL]" _ 0, THEN conjunct2] by simp
  ultimately show ?thesis
    by (simp only: rd emp)
qed

subsection \<open>The worker's send retries\<close>

lemma send_loop_all_false:
  assumes "\<forall>i. k \<le> i \<and> i < 1000 \<longrightarrow> send q msg (os i) bus = (Inr False, bus)"
  shows "send_loop q msg os k bus = (Inr False, bus)"
  using assms
proof (induction "1000 - k" arbitrary: k)
  case 0
  then show ?case by (subst send_loop.simps) simp
next
  case (Suc n)
  then have k: "k < 1000" and n: "n = 1000 - (k + 1)"
    by simp_all
  have step: "send q msg (os k) bus = (Inr False, bus)"
    using Suc.prems k by simp
  have "send_loop q msg os (k + 1) bus = (Inr False, bus)"
    using Suc.hyps(1) [OF n] Suc.prems by simp
  then show ?case
    using k step by (subst send_loop.simps) simp
qed

lemma send_loop_first_true:
  assumes "k \<le> j" and "j < 1000"
    and "\<forall>i. k \<le> i \<and> i < j \<longrightarrow> send q msg (os i) bus = (Inr False, bus)"
    and "send q msg (os j) bus = (Inr True, bus')"
  shows "send_loop q msg os k bus = (Inr True, bus')"
  using assms
proof (induction "j - k" arbitrary: k)
  case 0
  then have "k = j" by simp
  then show ?case
    using 0 by (subst send_loop.simps) simp
next
  case (Suc n)
  then have k: "k < j" and n: "n = j - (k + 1)"
    by simp_all
  have step: "send q msg (os k) bus = (Inr False, bus)"
    using Suc.prems k by simp
  have "send_loop q msg os (k + 1) bus = (Inr True, bus')"
    using Suc.hyps(1) [OF n] Suc.prems k by simp
  then show ?case
    using k step Suc.prems by (subst send_loop.simps) simp
qed

text \<open>
  C4. For a worker task: when each of the 1000 calls of \<^const>\<open>send\<close> on the request queue
  returns \<^verbatim>\<open>false\<close> (would-block), the first part of the task ends with the slot completed
  with \<^verbatim>\<open>{"status":"ERROR","reason":"mq_full"}\<close> and nothing put on the queue; when a call
  returns \<^verbatim>\<open>true\<close> after would-block answers only, the frame is on the queue and the slot
  is as it was: no ERROR completion. In the first case the bounded wait returns at once and,
  with nothing dispatched before the worker reads the slot, the whole task appends that text
  and a line feed to the connection's output queue.
\<close>

theorem worker_send_mq_full:
  "((\<forall>k<1000. send (mq_req st) (pack RouteReq corr req) (os k) (req_bus st) = (Inr False, req_bus st))
      \<longrightarrow> worker_send (cfd, corr, pend, req) os st =
            Inr (st\<lparr>slots := (slots st)(pend :=
                   \<lparr>done_flag = True, resp = ''{\"status\":\"ERROR\",\"reason\":\"mq_full\"}''\<rparr>)\<rparr>))
   \<and> (j < 1000
        \<and> (\<forall>i<j. send (mq_req st) (pack RouteReq corr req) (os i) (req_bus st) = (Inr False, req_bus st))
        \<and> fst (send (mq_req st) (pack RouteReq corr req) (os j) (req_bus st)) = Inr True
      \<longrightarrow> worker_send (cfd, corr, pend, req) os st =
            Inr (st\<lparr>req_bus := req_bus st @ [pack RouteReq corr req]\<rparr>))
   \<and> ((\<forall>k<1000. send (mq_req st) (pack RouteReq corr req) (os k) (req_bus st) = (Inr False, req_bus st))
        \<and> conns st cfd = Some c
      \<longrightarrow> conns (worker_task (cfd, corr, pend, req) os arrivals [] st) cfd =
            Some (c\<lparr>outq := outq c @ [''{\"status\":\"ERROR\",\"reason\":\"mq_full\"}'' @ [CHR 0x0A]],
                    want_write := True\<rparr>))"
proof (intro conjI impI)
  assume "\<forall>k<1000. send (mq_req st) (pack RouteReq corr req) (os k) (req_bus st) = (Inr False, req_bus st)"
  then have "send_loop (mq_req st) (pack RouteReq corr req) os 0 (req_bus st) = (Inr False, req_bus st)"
    by (intro send_loop_all_false) simp
  then show "worker_send (cfd, corr, pend, req) os st =
      Inr (st\<lparr>slots := (slots st)(pend :=
             \<lparr>done_flag = True, resp = ''{\"status\":\"ERROR\",\"reason\":\"mq_full\"}''\<rparr>)\<rparr>)"
    by (simp add: worker_send_def MQ_FULL_def)
next
  let ?st1 = "st\<lparr>slots := (slots st)(pend := \<lparr>done_flag = True, resp = MQ_FULL\<rparr>)\<rparr>"
  assume a: "(\<forall>k<1000. send (mq_req st) (pack RouteReq corr req) (os k) (req_bus st) = (Inr False, req_bus st))
        \<and> conns st cfd = Some c"
  then have "send_loop (mq_req st) (pack RouteReq corr req) os 0 (req_bus st) = (Inr False, req_bus st)"
    by (intro send_loop_all_false) simp
  then have ws: "worker_send (cfd, corr, pend, req) os st = Inr ?st1"
    by (simp add: worker_send_def)
  have ww: "worker_wait (cfd, corr, pend, req) arrivals ?st1 = ?st1"
    by (simp add: worker_wait_def wait_for_done)
  show "conns (worker_task (cfd, corr, pend, req) os arrivals [] st) cfd =
      Some (c\<lparr>outq := outq c @ [''{\"status\":\"ERROR\",\"reason\":\"mq_full\"}'' @ [CHR 0x0A]],
              want_write := True\<rparr>)"
  proof -
    have "worker_task (cfd, corr, pend, req) os arrivals [] st = worker_reply (cfd, corr, pend, req) ?st1"
      by (simp add: worker_task_def ws ww)
    then show ?thesis
      using a by (simp add: worker_reply_def push_out_def enable_write_def MQ_FULL_def NL_def)
  qed
next
  let ?msg = "pack RouteReq corr req"
  assume a: "j < 1000
        \<and> (\<forall>i<j. send (mq_req st) ?msg (os i) (req_bus st) = (Inr False, req_bus st))
        \<and> fst (send (mq_req st) ?msg (os j) (req_bus st)) = Inr True"
  then have "send (mq_req st) ?msg (os j) (req_bus st) = (Inr True, req_bus st @ [?msg])"
    by (auto simp: send_def split: if_splits sys_send.splits)
  with a have "send_loop (mq_req st) ?msg os 0 (req_bus st) = (Inr True, req_bus st @ [?msg])"
    by (intro send_loop_first_true [where j = j]) simp_all
  then show "worker_send (cfd, corr, pend, req) os st = Inr (st\<lparr>req_bus := req_bus st @ [?msg]\<rparr>)"
    by (simp add: worker_send_def)
qed

theorem worker_send_mq_full_witness:
  "worker_send (5, 1, 0, demo_line) (\<lambda>k. WouldBlock) demo_inflight =
     Inr (demo_inflight\<lparr>slots := (slots demo_inflight)(0 :=
            \<lparr>done_flag = True, resp = ''{\"status\":\"ERROR\",\"reason\":\"mq_full\"}''\<rparr>)\<rparr>)
   \<and> worker_send (5, 1, 0, demo_line) (\<lambda>k. if k < 3 then WouldBlock else Delivered) demo_inflight =
     Inr (demo_inflight\<lparr>req_bus := req_bus demo_inflight @ [pack RouteReq 1 demo_line]\<rparr>)
   \<and> conns (worker_task (5, 1, 0, demo_line) (\<lambda>k. WouldBlock) [] [] demo_inflight) 5 =
     Some \<lparr>fd = 5, inbuf = [],
           outq = [''{\"status\":\"ERROR\",\"reason\":\"mq_full\"}'' @ [CHR 0x0A]],
           want_write = True\<rparr>"
proof -
  have a: "\<forall>k<1000. send (mq_req demo_inflight) (pack RouteReq 1 demo_line) WouldBlock
      (req_bus demo_inflight) = (Inr False, req_bus demo_inflight)"
    by (simp add: send_demo)
  let ?os = "\<lambda>k::nat. if k < 3 then WouldBlock else Delivered"
  have b: "(3::nat) < 1000
     \<and> (\<forall>i<3. send (mq_req demo_inflight) (pack RouteReq 1 demo_line) (?os i)
          (req_bus demo_inflight) = (Inr False, req_bus demo_inflight))
     \<and> fst (send (mq_req demo_inflight) (pack RouteReq 1 demo_line) (?os 3)
          (req_bus demo_inflight)) = Inr True"
    by (simp add: send_demo)
  have 1: "worker_send (5, 1, 0, demo_line) (\<lambda>k. WouldBlock) demo_inflight =
     Inr (demo_inflight\<lparr>slots := (slots demo_inflight)(0 :=
            \<lparr>done_flag = True, resp = ''{\"status\":\"ERROR\",\"reason\":\"mq_full\"}''\<rparr>)\<rparr>)"
    using worker_send_mq_full [where st = demo_inflight and corr = 1 and req = demo_line
        and os = "\<lambda>k. WouldBlock" and cfd = 5 and pend = 0, THEN conjunct1] a
    by blast
  have 2: "worker_send (5, 1, 0, demo_line) ?os demo_inflight =
     Inr (demo_inflight\<lparr>req_bus := req_bus demo_inflight @ [pack RouteReq 1 demo_line]\<rparr>)"
    using worker_send_mq_full [where st = demo_inflight and corr = 1 and req = demo_line
        and os = ?os and cfd = 5 and pend = 0 and j = 3, THEN conjunct2, THEN conjunct1] b
    by blast
  have c: "conns demo_inflight 5 = Some \<lparr>fd = 5, inbuf = [], outq = [], want_write = False\<rparr>"
    by (simp add: demo_inflight_eq)
  let ?c = "\<lparr>fd = 5, inbuf = [], outq = [], want_write = False\<rparr>"
  have "conns (worker_task (5, 1, 0, demo_line) (\<lambda>k. WouldBlock) [] [] demo_inflight) 5 =
     Some (?c\<lparr>outq := outq ?c @ [''{\"status\":\"ERROR\",\"reason\":\"mq_full\"}'' @ [CHR 0x0A]],
              want_write := True\<rparr>)"
    by (rule worker_send_mq_full [where st = demo_inflight and corr = 1 and req = demo_line
          and os = "\<lambda>k. WouldBlock" and cfd = 5 and pend = 0 and arrivals = "[]" and c = ?c,
          THEN conjunct2, THEN conjunct2, THEN mp])
      (intro conjI a c)
  then have 3: "conns (worker_task (5, 1, 0, demo_line) (\<lambda>k. WouldBlock) [] [] demo_inflight) 5 =
     Some \<lparr>fd = 5, inbuf = [],
           outq = [''{\"status\":\"ERROR\",\"reason\":\"mq_full\"}'' @ [CHR 0x0A]],
           want_write = True\<rparr>"
    by simp
  show ?thesis
    using 1 2 3 by simp
qed

subsection \<open>The worker's bounded wait\<close>

lemma conns_dispatch [simp]: "conns (dispatch m st) = conns st"
  by (simp add: dispatch_def split: option.splits prod.splits)

lemma conns_dispatch_all [simp]: "conns (dispatch_all ms st) = conns st"
  by (induction ms arbitrary: st) simp_all



subsection \<open>Oversize requests\<close>

lemma req_bus_dispatch [simp]: "req_bus (dispatch m st) = req_bus st"
  by (simp add: dispatch_def split: option.splits prod.splits)

lemma req_bus_dispatch_all [simp]: "req_bus (dispatch_all ms st) = req_bus st"
  by (induction ms arbitrary: st) simp_all

lemma send_oversize:
  assumes "length data > size_t_of_long (msgsize (cfg q))"
  shows "send q data sys bus = (if mqd_open q then (Inl MsgTooLarge, bus) else (Inr False, bus))"
  using assms by (simp add: send_def)

lemma send_loop_oversize:
  assumes "length msg > size_t_of_long (msgsize (cfg q))"
  shows "send_loop q msg os 0 bus = (if mqd_open q then (Inl MsgTooLarge, bus) else (Inr False, bus))"
proof (cases "mqd_open q")
  case True
  then show ?thesis
    using assms by (subst send_loop.simps) (simp add: send_oversize)
next
  case False
  then have "send_loop q msg os 0 bus = (Inr False, bus)"
    using assms by (intro send_loop_all_false) (simp add: send_oversize)
  with False show ?thesis by simp
qed

lemma mq_req_request_path [simp]: "mq_req (request_path cfd line st) = mq_req st"
  by (simp add: request_path_def next_corr_id_def make_shared_Pending_def enable_write_def push_out_def Let_def split: option.splits)

text \<open>
  C7, as the code has it. \<^const>\<open>pack\<close> has no failure path: for every input it returns the whole
  frame of 24 bytes plus the payload, whatever the cap. The size test is in \<^const>\<open>send\<close>: on an
  open queue it throws "message too large" exactly when the frame is longer than the
  configured message size, and then \<^verbatim>\<open>mq_send\<close> is not called, so the queue is as before.
  A worker task whose request makes an oversize frame puts nothing on the request queue; on
  an open queue the exception ends the task in its \<^verbatim>\<open>catch\<close> clause with the state unchanged.
\<close>

theorem oversize_rejected_by_send:
  "length (pack t c p) = 24 + length p
   \<and> (mqd_open q \<longrightarrow>
        (send q data sys bus = (Inl MsgTooLarge, bus)) = (length data > size_t_of_long (msgsize (cfg q))))
   \<and> (length data > size_t_of_long (msgsize (cfg q)) \<longrightarrow> snd (send q data sys bus) = bus)
   \<and> (24 + length req > size_t_of_long (msgsize (cfg (mq_req st))) \<longrightarrow>
        req_bus (worker_task (cfd, corr, pend, req) os arrivals late st) = req_bus st)
   \<and> (mqd_open (mq_req st) \<and> 24 + length req > size_t_of_long (msgsize (cfg (mq_req st))) \<longrightarrow>
        worker_send (cfd, corr, pend, req) os st = Inl MsgTooLarge
        \<and> worker_task (cfd, corr, pend, req) os arrivals late st = st)"
proof (intro conjI impI)
  show "length (pack t c p) = 24 + length p"
    by (rule length_pack)
  show "(send q data sys bus = (Inl MsgTooLarge, bus)) = (length data > size_t_of_long (msgsize (cfg q)))"
    if "mqd_open q"
    using that by (cases sys) (simp_all add: send_def)
  show "snd (send q data sys bus) = bus" if "length data > size_t_of_long (msgsize (cfg q))"
    using that by (simp add: send_oversize)
next
  assume big: "24 + length req > size_t_of_long (msgsize (cfg (mq_req st)))"
  then have loop: "send_loop (mq_req st) (pack RouteReq corr req) os 0 (req_bus st) =
      (if mqd_open (mq_req st) then (Inl MsgTooLarge, req_bus st) else (Inr False, req_bus st))"
    by (intro send_loop_oversize) (simp add: length_pack)
  show "req_bus (worker_task (cfd, corr, pend, req) os arrivals late st) = req_bus st"
  proof (cases "mqd_open (mq_req st)")
    case True
    then show ?thesis
      by (simp add: worker_task_def worker_send_def loop)
  next
    case False
    let ?st1 = "st\<lparr>slots := (slots st)(pend := \<lparr>done_flag = True, resp = MQ_FULL\<rparr>)\<rparr>"
    have ws: "worker_send (cfd, corr, pend, req) os st = Inr ?st1"
      using False by (simp add: worker_send_def loop)
    have "worker_wait (cfd, corr, pend, req) arrivals ?st1 = ?st1"
      by (simp add: worker_wait_def wait_for_done)
    then show ?thesis
      by (simp add: worker_task_def ws worker_reply_def push_out_def enable_write_def
          split: option.splits)
  qed
next
  assume "mqd_open (mq_req st) \<and> 24 + length req > size_t_of_long (msgsize (cfg (mq_req st)))"
  then have opened: "mqd_open (mq_req st)"
    and big: "24 + length req > size_t_of_long (msgsize (cfg (mq_req st)))"
    by simp_all
  have loop: "send_loop (mq_req st) (pack RouteReq corr req) os 0 (req_bus st) =
      (Inl MsgTooLarge, req_bus st)"
    using send_loop_oversize [of "mq_req st" "pack RouteReq corr req" os "req_bus st"] big opened
    by (simp add: length_pack)
  show "worker_send (cfd, corr, pend, req) os st = Inl MsgTooLarge"
    by (simp add: worker_send_def loop)
  then show "worker_task (cfd, corr, pend, req) os arrivals late st = st"
    by (simp add: worker_task_def)
qed

text \<open>
  Against C7 as the specification words it (\<^verbatim>\<open>pack\<close> fails above the cap): for a payload of
  8169 bytes, with the queue's message size 8192, \<^const>\<open>pack\<close> returns a frame of 8193 bytes
  that \<^const>\<open>unpack\<close> accepts.
\<close>

theorem pack_oversize_counterexample:
  "size_t_of_long (msgsize (cfg (mq_req server_init))) = 8192
   \<and> length (pack RouteReq 1 (replicate 8169 CHR ''a'')) = 8193
   \<and> unpack (pack RouteReq 1 (replicate 8169 CHR ''a'')) =
       Some (\<lparr>magic = 0x54524D51, version = 1, type = 1, corr_id = 1, payload_len = 8169,
              reserved = 0\<rparr>, replicate 8169 CHR ''a'')"
  using unpack_pack [of "replicate 8169 CHR ''a''" RouteReq 1]
  by (simp add: length_pack server_init_def size_t_of_long_def MAGIC_def)

theorem oversize_rejected_by_send_witness:
  "length (pack RouteReq 1 big_line) = 8193
   \<and> send (mq_req server_init) (pack RouteReq 1 big_line) Delivered [] = (Inl MsgTooLarge, [])
   \<and> worker_send (5, 1, 0, big_line) (\<lambda>k. Delivered) (request_path 5 big_line demo_server)
        = Inl MsgTooLarge
   \<and> worker_task (5, 1, 0, big_line) (\<lambda>k. Delivered) [] [] (request_path 5 big_line demo_server)
        = request_path 5 big_line demo_server
   \<and> req_bus (worker_task (5, 1, 0, big_line) (\<lambda>k. Delivered) [] [] (request_path 5 big_line demo_server))
        = []"
proof -
  let ?st = "request_path 5 big_line demo_server"
  have q: "mqd_open (mq_req demo_server)" "mqd_open (mq_req server_init)"
    "size_t_of_long (msgsize (cfg (mq_req demo_server))) = 8192"
    "size_t_of_long (msgsize (cfg (mq_req server_init))) = 8192"
    by (simp_all add: demo_server_eq server_init_def size_t_of_long_def)
  have b: "req_bus ?st = []"
    by (simp add: request_path_def next_corr_id_def make_shared_Pending_def demo_server_eq server_init_def MAX_PENDING_def Let_def)
  have l: "length big_line = 8169"
    by (simp add: big_line_def)
  show ?thesis
    using oversize_rejected_by_send [where t = RouteReq and c = 1 and p = big_line
        and q = "mq_req server_init" and data = "pack RouteReq 1 big_line" and sys = Delivered
        and bus = "[]" and req = big_line and st = ?st and cfd = 5 and corr = 1 and pend = 0
        and os = "\<lambda>k. Delivered" and arrivals = "[]" and late = "[]"]
    by (simp add: q b l)
qed

subsection \<open>Completing a slot that is already completed\<close>

lemma map_of_erase: "map_of (erase k m) k' = (if k' = k then None else map_of m k')"
  by (induction m) (auto simp: erase_def)

lemma done_dispatch: "done_flag (slots st p) \<Longrightarrow> done_flag (slots (dispatch m st) p)"
  by (simp add: dispatch_def split: option.splits prod.splits)

lemma slots_dispatch_hit:
  assumes "unpack data = Some (h, payload)" and "type h = 2"
    and "map_of (pending st) (corr_id h) = Some p"
  shows "dispatch data st = st\<lparr>pending := erase (corr_id h) (pending st),
     slots := (slots st)(p := \<lparr>done_flag = True, resp = payload\<rparr>)\<rparr>"
  using assms by (simp add: dispatch_def)

text \<open>
  C8, as the code has it. For a slot that is already completed: the worker's bounded wait
  returns at once and its timeout fill leaves the slot as it is; the flag stays set whatever
  the dispatcher receives; but the dispatcher does not read the flag, and a response frame
  whose correlation id the table maps to the slot replaces the stored response; the
  send-failure fill does not read it either and stores the \<^verbatim>\<open>mq_full\<close> text.
\<close>

theorem completed_slot_refill:
  assumes "done_flag (slots st pend)"
  shows "worker_wait (cfd, corr, pend, req) arrivals st = st
   \<and> done_flag (slots (dispatch data st) pend)
   \<and> (unpack data = Some (h, payload) \<and> type h = 2 \<and> map_of (pending st) (corr_id h) = Some pend
        \<longrightarrow> slots (dispatch data st) pend = \<lparr>done_flag = True, resp = payload\<rparr>)
   \<and> ((\<forall>k<1000. send (mq_req st) (pack RouteReq corr req) (os k) (req_bus st) = (Inr False, req_bus st))
        \<longrightarrow> (\<exists>st1. worker_send (cfd, corr, pend, req) os st = Inr st1
              \<and> slots st1 pend = \<lparr>done_flag = True, resp = ''{\"status\":\"ERROR\",\"reason\":\"mq_full\"}''\<rparr>))
   \<and> (worker_send (cfd, corr, pend, req) os st = Inr st_sent \<longrightarrow> done_flag (slots st_sent pend))"
proof (intro conjI impI)
  show "done_flag (slots st_sent pend)" if "worker_send (cfd, corr, pend, req) os st = Inr st_sent"
    using that assms
    by (auto simp: worker_send_def Let_def split: prod.splits sum.splits if_splits)
  show "worker_wait (cfd, corr, pend, req) arrivals st = st"
    using assms by (simp add: worker_wait_def wait_for_done)
  show "done_flag (slots (dispatch data st) pend)"
    using assms by (rule done_dispatch)
  show "slots (dispatch data st) pend = \<lparr>done_flag = True, resp = payload\<rparr>"
    if "unpack data = Some (h, payload) \<and> type h = 2 \<and> map_of (pending st) (corr_id h) = Some pend"
    using that by (simp add: slots_dispatch_hit)
next
  assume "\<forall>k<1000. send (mq_req st) (pack RouteReq corr req) (os k) (req_bus st) = (Inr False, req_bus st)"
  then have "send_loop (mq_req st) (pack RouteReq corr req) os 0 (req_bus st) = (Inr False, req_bus st)"
    by (intro send_loop_all_false) simp
  then show "\<exists>st1. worker_send (cfd, corr, pend, req) os st = Inr st1
      \<and> slots st1 pend = \<lparr>done_flag = True, resp = ''{\"status\":\"ERROR\",\"reason\":\"mq_full\"}''\<rparr>"
    by (simp add: worker_send_def MQ_FULL_def)
qed

text \<open>
  Against C8 as the specification words it (a later completion changes nothing): after the
  worker has completed slot 0 on timeout, a late response for correlation id 1 makes the
  dispatcher replace the stored response.
\<close>

theorem late_response_overwrites_counterexample:
  "slots demo_timeout 0 =
      \<lparr>done_flag = True, resp = ''{\"status\":\"TIMEOUT\",\"reason\":\"flx_no_response\"}''\<rparr>
   \<and> slots (dispatch (pack RouteResp 1 ''{\"status\":\"OK\"}'') demo_timeout) 0 =
      \<lparr>done_flag = True, resp = ''{\"status\":\"OK\"}''\<rparr>"
proof -
  have p: "map_of (pending demo_timeout) 1 = Some 0"
    by (simp add: demo_timeout_eq demo_inflight_eq)
  have "slots (dispatch (pack RouteResp 1 ''{\"status\":\"OK\"}'') demo_timeout) 0 =
      \<lparr>done_flag = True, resp = ''{\"status\":\"OK\"}''\<rparr>"
    using slots_dispatch_hit [OF unpack_late _ , of demo_timeout 0] p by simp
  moreover have "slots demo_timeout 0 =
      \<lparr>done_flag = True, resp = ''{\"status\":\"TIMEOUT\",\"reason\":\"flx_no_response\"}''\<rparr>"
    by (simp add: demo_timeout_eq FLX_TIMEOUT_def)
  ultimately show ?thesis by simp
qed

theorem completed_slot_refill_witness:
  "done_flag (slots demo_timeout 0)
   \<and> worker_wait (5, 1, 0, demo_line) [pack RouteResp 1 ''{\"status\":\"OK\"}''] demo_timeout
        = demo_timeout
   \<and> done_flag (slots (dispatch (pack RouteResp 1 ''{\"status\":\"OK\"}'') demo_timeout) 0)
   \<and> (\<exists>st1. worker_send (5, 1, 0, demo_line) (\<lambda>k. WouldBlock) demo_timeout = Inr st1
         \<and> slots st1 0 = \<lparr>done_flag = True, resp = ''{\"status\":\"ERROR\",\"reason\":\"mq_full\"}''\<rparr>)"
proof -
  have d: "done_flag (slots demo_timeout 0)"
    by (simp add: demo_timeout_eq)
  have a: "\<forall>k<1000. send (mq_req demo_timeout) (pack RouteReq 1 demo_line) WouldBlock
      (req_bus demo_timeout) = (Inr False, req_bus demo_timeout)"
    using demo_msg_fits
    by (simp add: send_def demo_timeout_eq demo_inflight_eq server_init_def size_t_of_long_def)
  show ?thesis
    using completed_slot_refill [OF d, where cfd = 5 and corr = 1 and req = demo_line
        and arrivals = "[pack RouteResp 1 ''{\"status\":\"OK\"}'']"
        and data = "pack RouteResp 1 ''{\"status\":\"OK\"}''" and os = "\<lambda>k. WouldBlock"] a d
    by blast
qed

subsection \<open>Removal from the pending table\<close>

lemma pending_dispatch_hit:
  assumes "unpack data = Some (h, payload)" and "type h = 2"
  shows "map_of (pending (dispatch data st)) k =
     (if k = corr_id h then None else map_of (pending st) k)"
  using assms by (auto simp: dispatch_def map_of_erase split: option.splits)

lemma pending_dispatch_miss:
  assumes "unpack data = None \<or> (\<exists>h payload. unpack data = Some (h, payload) \<and> type h \<noteq> 2)"
  shows "pending (dispatch data st) = pending st"
  using assms by (auto simp: dispatch_def)

lemma dispatch_entry_or_done:
  assumes "map_of (pending st) corr = Some pend"
  shows "map_of (pending (dispatch m st)) corr = Some pend \<or> done_flag (slots (dispatch m st) pend)"
  using assms by (auto simp: dispatch_def map_of_erase split: option.splits)

lemma wait_for_timeout_entry:
  assumes "wait_for pend ms st = (False, st')" and "map_of (pending st) corr = Some pend"
  shows "map_of (pending st') corr = Some pend"
  using assms
proof (induction pend ms st rule: wait_for.induct)
  case (1 pend st)
  then show ?case by simp
next
  case (2 pend m ms st)
  then have nd: "\<not> done_flag (slots st pend)"
    and w: "wait_for pend ms (dispatch m st) = (False, st')"
    by (auto split: if_splits)
  have "\<not> done_flag (slots (dispatch m st) pend)"
    using wait_for_done [of "dispatch m st" pend ms] w by auto
  then have "map_of (pending (dispatch m st)) corr = Some pend"
    using dispatch_entry_or_done [OF "2.prems"(2), of m] by simp
  then show ?case
    using "2.IH" nd w by simp
qed

lemma pending_request_path_keeps:
  assumes "map_of (pending st) k = Some a"
  shows "map_of (pending (request_path cfd line st)) k = Some a"
  using assms
  by (auto simp: request_path_def next_corr_id_def make_shared_Pending_def enable_write_def
      push_out_def emplace_def map_add_def split: option.splits)

lemma pending_worker_send: "worker_send task os st = Inr st1 \<Longrightarrow> pending st1 = pending st"
  by (auto simp: worker_send_def Let_def split: prod.splits sum.splits if_splits)

lemma pending_worker_reply [simp]: "pending (worker_reply task st) = pending st"
  by (simp add: worker_reply_def push_out_def enable_write_def Let_def split: prod.splits option.splits)

text \<open>
  C9, as the code has it. An entry leaves the table when the dispatcher handles a response
  frame with its correlation id, and only then: such a frame removes that entry and no
  other, and a message that does not unpack or is not a response leaves the table as it is.
  The worker's timeout does not remove the entry: when the bounded wait of a task ends
  with the slot not done, the task completes the slot with the TIMEOUT text and, with
  nothing dispatched after the wait, the table still maps the correlation id to the slot
  when the task ends. The request path removes nothing either.
\<close>

theorem pending_entry_removal:
  "(unpack data = Some (h, payload) \<and> type h = 2 \<longrightarrow>
      map_of (pending (dispatch data st)) (corr_id h) = None
      \<and> (\<forall>k. k \<noteq> corr_id h \<longrightarrow> map_of (pending (dispatch data st)) k = map_of (pending st) k))
   \<and> (unpack data = None \<or> (\<exists>h payload. unpack data = Some (h, payload) \<and> type h \<noteq> 2) \<longrightarrow>
      pending (dispatch data st) = pending st)
   \<and> (worker_send (cfd, corr, pend, req) os st = Inr st_sent
        \<and> wait_for pend arrivals st_sent = (False, st_woken)
        \<and> map_of (pending st) corr = Some pend \<longrightarrow>
      map_of (pending (worker_task (cfd, corr, pend, req) os arrivals [] st)) corr = Some pend
      \<and> slots (worker_task (cfd, corr, pend, req) os arrivals [] st) pend =
          \<lparr>done_flag = True, resp = ''{\"status\":\"TIMEOUT\",\"reason\":\"flx_no_response\"}''\<rparr>)
   \<and> (map_of (pending st) key = Some slot \<longrightarrow>
      map_of (pending (request_path fd_line line st)) key = Some slot)"
proof (intro conjI impI allI)
  show "map_of (pending (request_path fd_line line st)) key = Some slot"
    if "map_of (pending st) key = Some slot"
    using that by (rule pending_request_path_keeps)
next
  assume a: "unpack data = Some (h, payload) \<and> type h = 2"
  then show "map_of (pending (dispatch data st)) (corr_id h) = None"
    by (simp add: pending_dispatch_hit)
  fix k assume "k \<noteq> corr_id h"
  with a show "map_of (pending (dispatch data st)) k = map_of (pending st) k"
    by (simp add: pending_dispatch_hit)
next
  assume "unpack data = None \<or> (\<exists>h payload. unpack data = Some (h, payload) \<and> type h \<noteq> 2)"
  then show "pending (dispatch data st) = pending st"
    by (rule pending_dispatch_miss)
next
  assume a: "worker_send (cfd, corr, pend, req) os st = Inr st_sent
        \<and> wait_for pend arrivals st_sent = (False, st_woken)
        \<and> map_of (pending st) corr = Some pend"
  then have "map_of (pending st_sent) corr = Some pend"
    using pending_worker_send by metis
  then have e: "map_of (pending st_woken) corr = Some pend"
    using a wait_for_timeout_entry by blast
  have wt: "worker_task (cfd, corr, pend, req) os arrivals [] st =
      worker_reply (cfd, corr, pend, req)
        (st_woken\<lparr>slots := (slots st_woken)(pend := \<lparr>done_flag = True, resp = FLX_TIMEOUT\<rparr>)\<rparr>)"
    using a by (simp add: worker_task_def worker_wait_def)
  show "map_of (pending (worker_task (cfd, corr, pend, req) os arrivals [] st)) corr = Some pend"
    using e by (simp add: wt)
  show "slots (worker_task (cfd, corr, pend, req) os arrivals [] st) pend =
          \<lparr>done_flag = True, resp = ''{\"status\":\"TIMEOUT\",\"reason\":\"flx_no_response\"}''\<rparr>"
    by (simp add: wt worker_reply_def push_out_def enable_write_def FLX_TIMEOUT_def
        split: option.splits)
qed

text \<open>
  Against C9 as the specification words it (the timeout removes the entry): after the
  worker's timeout has completed slot 0, the table still holds the entry for correlation
  id 1.
\<close>

theorem timeout_keeps_entry_counterexample:
  "slots (worker_task (5, 1, 0, demo_line) (\<lambda>k. Delivered) [] [] demo_inflight) 0 =
      \<lparr>done_flag = True, resp = ''{\"status\":\"TIMEOUT\",\"reason\":\"flx_no_response\"}''\<rparr>
   \<and> map_of (pending (worker_task (5, 1, 0, demo_line) (\<lambda>k. Delivered) [] [] demo_inflight)) 1 = Some 0"
  using demo_timeout_eq
  by (simp add: demo_timeout_def demo_inflight_eq FLX_TIMEOUT_def)

theorem pending_entry_removal_witness:
  "map_of (pending demo_inflight) 1 = Some 0
   \<and> map_of (pending (dispatch (pack RouteResp 1 ''{\"status\":\"OK\"}'') demo_inflight)) 1 = None
   \<and> pending (dispatch (pack RouteReq 1 ''{\"status\":\"OK\"}'') demo_inflight) = pending demo_inflight
   \<and> map_of (pending (worker_task (5, 1, 0, demo_line) (\<lambda>k. Delivered)
         [pack RouteResp 2 ''{\"status\":\"OK\"}''] [] demo_inflight)) 1 = Some 0
   \<and> map_of (pending (request_path 5 demo_line demo_inflight)) 1 = Some 0"
proof -
  let ?st1 = "demo_inflight\<lparr>req_bus := [pack RouteReq 1 demo_line]\<rparr>"
  have e: "map_of (pending demo_inflight) 1 = Some 0"
    by (simp add: demo_inflight_eq)
  have u2: "unpack (pack RouteResp 2 ''{\"status\":\"OK\"}'') =
     Some (\<lparr>magic = MAGIC, version = 1, type = 2, corr_id = 2, payload_len = 15, reserved = 0\<rparr>,
           ''{\"status\":\"OK\"}'')"
    using unpack_pack [of "''{\"status\":\"OK\"}''" RouteResp 2] by simp
  have u3: "unpack (pack RouteReq 1 ''{\"status\":\"OK\"}'') =
     Some (\<lparr>magic = MAGIC, version = 1, type = 1, corr_id = 1, payload_len = 15, reserved = 0\<rparr>,
           ''{\"status\":\"OK\"}'')"
    using unpack_pack [of "''{\"status\":\"OK\"}''" RouteReq 1] by simp
  have d: "dispatch (pack RouteResp 2 ''{\"status\":\"OK\"}'') ?st1 = ?st1"
    by (simp add: dispatch_def u2 demo_inflight_eq)
  have w: "wait_for 0 [pack RouteResp 2 ''{\"status\":\"OK\"}''] ?st1 = (False, ?st1)"
    by (simp add: d) (simp add: demo_inflight_eq)
  note T = pending_entry_removal [where cfd = 5 and corr = 1 and pend = 0 and req = demo_line
      and os = "\<lambda>k. Delivered" and st = demo_inflight and st_sent = ?st1 and st_woken = ?st1
      and arrivals = "[pack RouteResp 2 ''{\"status\":\"OK\"}'']"]
  have 1: "map_of (pending (dispatch (pack RouteResp 1 ''{\"status\":\"OK\"}'') demo_inflight)) 1 = None"
    using T [where data = "pack RouteResp 1 ''{\"status\":\"OK\"}''"
        and h = "\<lparr>magic = MAGIC, version = 1, type = 2, corr_id = 1, payload_len = 15, reserved = 0\<rparr>"
        and payload = "''{\"status\":\"OK\"}''", THEN conjunct1] unpack_late
    by simp
  have 2: "pending (dispatch (pack RouteReq 1 ''{\"status\":\"OK\"}'') demo_inflight) = pending demo_inflight"
    using T [where data = "pack RouteReq 1 ''{\"status\":\"OK\"}''", THEN conjunct2, THEN conjunct1] u3
    by simp
  have 3: "map_of (pending (worker_task (5, 1, 0, demo_line) (\<lambda>k. Delivered)
         [pack RouteResp 2 ''{\"status\":\"OK\"}''] [] demo_inflight)) 1 = Some 0"
    using T [THEN conjunct2, THEN conjunct2] worker_send_delivered w e
    by simp
  have 4: "map_of (pending (request_path 5 demo_line demo_inflight)) 1 = Some 0"
    using T [where key = 1 and slot = 0 and fd_line = 5 and line = demo_line,
        THEN conjunct2, THEN conjunct2, THEN conjunct2] e
    by simp
  show ?thesis
    using e 1 2 3 4 by simp
qed

subsection \<open>The line a worker enqueues after a timeout\<close>








subsection \<open>Freshness of correlation ids\<close>

lemma pending_fresh_init: "pending_fresh server_init"
  by (simp add: pending_fresh_def server_init_def)

lemma pending_fresh_unused: "pending_fresh st \<Longrightarrow> map_of (pending st) (g st) = None"
  by (auto simp: pending_fresh_def map_of_eq_None_iff)

lemma pending_fresh_request_path:
  assumes "pending_fresh st" and "unat (g st) + 1 < 2 ^ 64"
  shows "pending_fresh (request_path cfd line st)"
proof (cases "length (pending st) > MAX_PENDING")
  case True
  then show ?thesis
    using assms(1)
    by (simp add: request_path_def next_corr_id_def make_shared_Pending_def enable_write_def push_out_def pending_fresh_def
        split: option.splits)
next
  case False
  have g': "unat (g st + 1) = unat (g st) + 1"
    using assms(2) by (simp add: unat_word_ariths)
  have new: "g st \<notin> fst ` set (pending st)"
    using assms(1) by (auto simp: pending_fresh_def)
  have "request_path cfd line st = st\<lparr>g := g st + 1,
        slots := (slots st)(nslots st := \<lparr>done_flag = False, resp = []\<rparr>),
        nslots := nslots st + 1,
        pending := pending st @ [(g st, nslots st)],
        pool := pool st @ [(cfd, g st, nslots st, line)]\<rparr>"
    using False pending_fresh_unused [OF assms(1)] by (rule request_path_accept)
  then show ?thesis
    using assms(1) new g' by (auto simp: pending_fresh_def)
qed

lemma pending_fresh_dispatch: "pending_fresh st \<Longrightarrow> pending_fresh (dispatch m st)"
  by (auto simp: pending_fresh_def dispatch_def erase_def distinct_map_filter
      split: option.splits)


section \<open>Properties of the FLX engine\<close>

subsection \<open>Texts cut at the quotes\<close>

lemma splitq_ne [simp]: "splitq s \<noteq> []"
  by (induction s) (auto split: list.splits)

lemma splitq_append_free:
  "QUOTE \<notin> set a \<Longrightarrow> splitq (a @ b) = (case splitq b of [] \<Rightarrow> [a] | s # ss \<Rightarrow> (a @ s) # ss)"
  by (induction a) (auto split: list.splits)

lemma splitq_free: "QUOTE \<notin> set a \<Longrightarrow> splitq a = [a]"
  using splitq_append_free [of a "[]"] by simp

lemma splitq_append_quote: "splitq (a @ QUOTE # b) = splitq a @ splitq b"
  by (induction a) (auto split: list.splits)

lemma key_in_append: "key_in k (A @ k # (CHR '':'' # s) # B)"
proof (induction A)
  case Nil
  show ?case by simp
next
  case (Cons x A)
  then show ?case by (cases A) simp_all
qed

lemma val_in_append: "val_in k v (A @ k # '':'' # v # B)"
proof (induction A)
  case Nil
  show ?case by simp
next
  case (Cons x A)
  show ?case
  proof (cases A)
    case Nil
    then show ?thesis by simp
  next
    case (Cons y A')
    then show ?thesis
      using Cons.IH by (cases A') simp_all
  qed
qed

lemma sublist_key:
  assumes "QUOTE \<notin> set k" and "sublist (QUOTE # k @ [QUOTE, CHR '':'']) s"
  shows "key_in k (splitq s)"
proof -
  from assms(2) obtain pre post where s: "s = pre @ (QUOTE # k @ [QUOTE, CHR '':'']) @ post"
    by (auto simp: sublist_def)
  obtain t ts where post: "splitq post = t # ts"
    by (cases "splitq post") simp_all
  have "s = pre @ QUOTE # (k @ QUOTE # (CHR '':'' # post))"
    by (simp add: s)
  then have "splitq s = splitq pre @ splitq k @ splitq (CHR '':'' # post)"
    by (simp only: splitq_append_quote)
  also have "\<dots> = splitq pre @ k # (CHR '':'' # t) # ts"
    using assms(1) by (simp add: splitq_free post QUOTE_def)
  finally show ?thesis
    by (simp add: key_in_append)
qed

lemma sublist_val:
  assumes "QUOTE \<notin> set k" and "QUOTE \<notin> set v"
    and "sublist (QUOTE # k @ [QUOTE, CHR '':'', QUOTE] @ v @ [QUOTE]) s"
  shows "val_in k v (splitq s)"
proof -
  from assms(3) obtain pre post
    where s: "s = pre @ (QUOTE # k @ [QUOTE, CHR '':'', QUOTE] @ v @ [QUOTE]) @ post"
    by (auto simp: sublist_def)
  have "s = pre @ QUOTE # (k @ QUOTE # ('':'' @ QUOTE # (v @ QUOTE # post)))"
    by (simp add: s)
  then have "splitq s = splitq pre @ splitq k @ splitq '':'' @ splitq v @ splitq post"
    by (simp only: splitq_append_quote)
  also have "\<dots> = splitq pre @ k # '':'' # v # splitq post"
    using assms(1,2) by (simp add: splitq_free QUOTE_def)
  finally show ?thesis
    by (simp add: val_in_append)
qed

lemma index_of_take: "index_of c xs = Some i \<Longrightarrow> c \<notin> set (take i xs)"
  by (induction xs arbitrary: i) (auto split: if_splits)

lemma json_get_string_quote_free: "QUOTE \<notin> set (json_get_string j key)"
proof -
  have "QUOTE \<notin> set (take (q2 - (q1 + 1)) (drop (q1 + 1) j))"
    if "find_char j QUOTE (q1 + 1) = Some q2" for q1 q2
  proof -
    from that obtain i where i: "index_of QUOTE (drop (q1 + 1) j) = Some i" and q2: "q2 = q1 + 1 + i"
      by (auto simp: find_char_def)
    show ?thesis
      using index_of_take [OF i] by (simp add: q2)
  qed
  then show ?thesis
    by (auto simp: json_get_string_def Let_def split: option.splits)
qed

lemma digit_quote_free: "n < 10 \<Longrightarrow> digit n \<noteq> QUOTE"
proof -
  assume "n < 10"
  then have "digit n \<in> set ''0123456789''"
    unfolding digit_def by (intro nth_mem) simp
  then show ?thesis
    by (auto simp: QUOTE_def)
qed

lemma to_decimal_quote_free: "QUOTE \<notin> set (to_decimal n)"
proof (induction n rule: to_decimal.induct)
  case (1 n)
  show ?case
  proof (cases "n < 10")
    case True
    then show ?thesis
      using digit_quote_free [of n] by (subst to_decimal.simps) auto
  next
    case False
    then have "QUOTE \<notin> set (to_decimal (n div 10))"
      using "1.IH" by simp
    moreover have "digit (n mod 10) \<noteq> QUOTE"
      by (rule digit_quote_free) simp
    ultimately show ?thesis
      using False by (subst to_decimal.simps) auto
  qed
qed

subsection \<open>The response to a request\<close>

lemma engine_payload_req:
  assumes "unpack data = Some (h, payload)" and "type h = 1"
  shows "engine_payload data t0 t1 =
     Some (corr_id h, build_resp (corr_id h) (json_get_string payload ''op'')
             (json_get_string payload ''msisdn'') (t1 - t0))"
proof -
  have "length data \<noteq> 0"
    using assms(1) by (auto simp: unpack_def hdr_size_def split: if_splits)
  then show ?thesis
    using assms by (simp add: engine_payload_def Let_def)
qed

lemma lookup_unknown:
  "m \<notin> {''+14085551234'', ''+12125550123'', ''+442079460123''} \<Longrightarrow> lookup_msisdn m = None"
  by (simp add: lookup_msisdn_def db_def)

lemma build_resp_not_found:
  "lookup_msisdn m = None \<Longrightarrow>
   build_resp c op m lat =
     not_found_text (show_u64 c) (if op = [] then ''route'' else op) m (show_u64 lat)"
  by (simp add: build_resp_def not_found_text_def)

lemma splitq_not_found:
  assumes "QUOTE \<notin> set D" "QUOTE \<notin> set OP" "QUOTE \<notin> set M" "QUOTE \<notin> set L"
  shows "splitq (not_found_text D OP M L) =
     [''{'', ''corr_id'', '':'' @ D @ '','', ''op'', '':'', OP, '','', ''msisdn'', '':'', M, '','',
      ''status'', '':'', ''NOT_FOUND'', '','', ''reason'', '':'', ''subscriber_not_in_alr'', '','',
      ''flx_latency_ms'', '':'' @ L @ ''}'']"
  using assms by (simp add: not_found_text_def splitq_append_free QUOTE_def)

lemma not_found_no_key:
  assumes "QUOTE \<notin> set D" "QUOTE \<notin> set OP" "QUOTE \<notin> set M" "QUOTE \<notin> set L"
    and "k \<in> {''imsi'', ''serving_msc'', ''serving_vlr'', ''route_group''}"
  shows "\<not> sublist (QUOTE # k @ [QUOTE, CHR '':'']) (not_found_text D OP M L)"
proof
  assume "sublist (QUOTE # k @ [QUOTE, CHR '':'']) (not_found_text D OP M L)"
  moreover have "QUOTE \<notin> set k"
    using assms(5) by (auto simp: QUOTE_def)
  ultimately have "key_in k (splitq (not_found_text D OP M L))"
    by (intro sublist_key)
  then show False
    using assms(5) by (auto simp: splitq_not_found [OF assms(1-4)])
qed

lemma show_u64_small: "show_u64 7 = ''7''" "show_u64 3 = ''3''"
  by (simp_all add: show_u64_def to_decimal.simps digit_def)
text \<open>
  C5. For a request frame (one that \<^const>\<open>unpack\<close> accepts, of type \<^verbatim>\<open>RouteReq\<close>) whose
  extracted \<^verbatim>\<open>msisdn\<close> is none of the three seeded keys (the empty string of a missing field
  included), the engine's response text contains \<^verbatim>\<open>"status":"NOT_FOUND"\<close> and
  \<^verbatim>\<open>"reason":"subscriber_not_in_alr"\<close>, and nowhere the start of a field named
  \<^verbatim>\<open>imsi\<close>, \<^verbatim>\<open>serving_msc\<close>, \<^verbatim>\<open>serving_vlr\<close> or \<^verbatim>\<open>route_group\<close>.
\<close>

theorem engine_not_found:
  assumes "unpack data = Some (h, payload)" and "type h = 1"
    and "json_get_string payload ''msisdn'' \<notin> {''+14085551234'', ''+12125550123'', ''+442079460123''}"
  shows "\<exists>text. engine_payload data t0 t1 = Some (corr_id h, text)
     \<and> engine_response data t0 t1 = Some (pack RouteResp (corr_id h) text)
     \<and> sublist ''\"status\":\"NOT_FOUND\"'' text
     \<and> sublist ''\"reason\":\"subscriber_not_in_alr\"'' text
     \<and> \<not> sublist ''\"imsi\":'' text
     \<and> \<not> sublist ''\"serving_msc\":'' text
     \<and> \<not> sublist ''\"serving_vlr\":'' text
     \<and> \<not> sublist ''\"route_group\":'' text"
proof -
  let ?m = "json_get_string payload ''msisdn''"
  let ?op = "json_get_string payload ''op''"
  let ?D = "show_u64 (corr_id h)" and ?L = "show_u64 (t1 - t0)"
  let ?OP = "if ?op = [] then ''route'' else ?op"
  let ?text = "not_found_text ?D ?OP ?m ?L"
  have bt: "build_resp (corr_id h) ?op ?m (t1 - t0) = ?text"
    using lookup_unknown [OF assms(3)] by (rule build_resp_not_found)
  have pl: "engine_payload data t0 t1 = Some (corr_id h, ?text)"
    using engine_payload_req [OF assms(1,2)] bt by simp
  then have fr: "engine_response data t0 t1 = Some (pack RouteResp (corr_id h) ?text)"
    by (simp add: engine_response_def)
  have qf: "QUOTE \<notin> set ?D" "QUOTE \<notin> set ?OP" "QUOTE \<notin> set ?m" "QUOTE \<notin> set ?L"
    by (simp_all add: show_u64_def to_decimal_quote_free json_get_string_quote_free)
      (simp add: QUOTE_def)
  have s1: "sublist ''\"status\":\"NOT_FOUND\"'' ?text"
  proof -
    have "?text = (''{\"corr_id\":'' @ ?D @ '',\"op\":\"'' @ ?OP @ ''\",\"msisdn\":\"'' @ ?m @ ''\",'')
        @ ''\"status\":\"NOT_FOUND\"''
        @ ('',\"reason\":\"subscriber_not_in_alr\",\"flx_latency_ms\":'' @ ?L @ ''}'')"
      by (simp add: not_found_text_def)
    then show ?thesis
      by (metis sublist_appendI)
  qed
  have s2: "sublist ''\"reason\":\"subscriber_not_in_alr\"'' ?text"
  proof -
    have "?text = (''{\"corr_id\":'' @ ?D @ '',\"op\":\"'' @ ?OP @ ''\",\"msisdn\":\"'' @ ?m
          @ ''\",\"status\":\"NOT_FOUND\",'')
        @ ''\"reason\":\"subscriber_not_in_alr\"''
        @ ('',\"flx_latency_ms\":'' @ ?L @ ''}'')"
      by (simp add: not_found_text_def)
    then show ?thesis
      by (metis sublist_appendI)
  qed
  note nk = not_found_no_key [OF qf]
  have n1: "\<not> sublist ''\"imsi\":'' ?text"
    using nk [of "''imsi''"] by (simp add: QUOTE_def)
  have n2: "\<not> sublist ''\"serving_msc\":'' ?text"
    using nk [of "''serving_msc''"] by (simp add: QUOTE_def)
  have n3: "\<not> sublist ''\"serving_vlr\":'' ?text"
    using nk [of "''serving_vlr''"] by (simp add: QUOTE_def)
  have n4: "\<not> sublist ''\"route_group\":'' ?text"
    using nk [of "''route_group''"] by (simp add: QUOTE_def)
  show ?thesis
    using pl fr s1 s2 n1 n2 n3 n4 by blast
qed

theorem engine_not_found_witness:
  "engine_payload (pack RouteReq 7 ''{\"msisdn\":\"+19999999999\"}'') 100 103 =
     Some (7, ''{\"corr_id\":7,\"op\":\"route\",\"msisdn\":\"+19999999999\",\"status\":\"NOT_FOUND\",\"reason\":\"subscriber_not_in_alr\",\"flx_latency_ms\":3}'')
   \<and> sublist ''\"status\":\"NOT_FOUND\"''
       ''{\"corr_id\":7,\"op\":\"route\",\"msisdn\":\"+19999999999\",\"status\":\"NOT_FOUND\",\"reason\":\"subscriber_not_in_alr\",\"flx_latency_ms\":3}''
   \<and> \<not> sublist ''\"imsi\":''
       ''{\"corr_id\":7,\"op\":\"route\",\"msisdn\":\"+19999999999\",\"status\":\"NOT_FOUND\",\"reason\":\"subscriber_not_in_alr\",\"flx_latency_ms\":3}''
   \<and> (\<exists>rtext. engine_payload (pack RouteReq 8 ''{\"op\":\"route\"}'') 100 103 = Some (8, rtext)
        \<and> sublist ''\"status\":\"NOT_FOUND\"'' rtext \<and> \<not> sublist ''\"imsi\":'' rtext)"
proof -
  let ?p = "''{\"msisdn\":\"+19999999999\"}''"
  let ?h = "\<lparr>magic = MAGIC, version = 1, type = 1, corr_id = 7, payload_len = 25, reserved = 0\<rparr>"
  let ?lit = "''{\"corr_id\":7,\"op\":\"route\",\"msisdn\":\"+19999999999\",\"status\":\"NOT_FOUND\",\"reason\":\"subscriber_not_in_alr\",\"flx_latency_ms\":3}''"
  have u: "unpack (pack RouteReq 7 ?p) = Some (?h, ?p)"
    using unpack_pack [of ?p RouteReq 7] by simp
  have t: "type ?h = 1"
    by simp
  have m: "json_get_string ?p ''msisdn'' = ''+19999999999''"
    by (simp add: json_get_string_def find_str_def find_char_def QUOTE_def)
  have o: "json_get_string ?p ''op'' = []"
    by (simp add: json_get_string_def find_str_def find_char_def QUOTE_def)
  have nk: "json_get_string ?p ''msisdn'' \<notin> {''+14085551234'', ''+12125550123'', ''+442079460123''}"
    by (simp add: m)
  have ev: "engine_payload (pack RouteReq 7 ?p) 100 103 = Some (7, ?lit)"
    using engine_payload_req [OF u t, of 100 103] lookup_unknown [OF nk]
    by (simp add: m o build_resp_def show_u64_small)
  from engine_not_found [OF u t nk, of 100 103]
  obtain rtext where r: "engine_payload (pack RouteReq 7 ?p) 100 103 = Some (corr_id ?h, rtext)"
    "sublist ''\"status\":\"NOT_FOUND\"'' rtext" "\<not> sublist ''\"imsi\":'' rtext"
    by blast
  from r(1) ev have eq: "rtext = ?lit"
    by simp
  let ?q = "''{\"op\":\"route\"}''"
  let ?h2 = "\<lparr>magic = MAGIC, version = 1, type = 1, corr_id = 8, payload_len = 14, reserved = 0\<rparr>"
  have u2: "unpack (pack RouteReq 8 ?q) = Some (?h2, ?q)"
    using unpack_pack [of ?q RouteReq 8] by simp
  have m2: "json_get_string ?q ''msisdn'' = []"
    by (simp add: json_get_string_def find_str_def find_char_def QUOTE_def)
  have nk2: "json_get_string ?q ''msisdn'' \<notin> {''+14085551234'', ''+12125550123'', ''+442079460123''}"
    by (simp add: m2)
  have t2: "type ?h2 = 1"
    by simp
  from engine_not_found [OF u2 t2 nk2, of 100 103]
  have "\<exists>rtext. engine_payload (pack RouteReq 8 ?q) 100 103 = Some (8, rtext)
        \<and> sublist ''\"status\":\"NOT_FOUND\"'' rtext \<and> \<not> sublist ''\"imsi\":'' rtext"
    by auto
  then show ?thesis
    using ev r(2,3) unfolding eq by blast
qed

lemma build_resp_found:
  "lookup_msisdn m = Some r \<Longrightarrow>
   build_resp c op m lat = ok_text (show_u64 c) (if op = [] then ''route'' else op) m r (show_u64 lat)"
  by (simp add: build_resp_def ok_text_def)

lemma db_quote_free:
  assumes "lookup_msisdn m = Some r"
  shows "QUOTE \<notin> set (imsi r) \<and> QUOTE \<notin> set (serving_msc r) \<and> QUOTE \<notin> set (serving_vlr r)
     \<and> QUOTE \<notin> set (route_policy r)"
  using assms
  by (auto simp: lookup_msisdn_def db_def route_policy_def QUOTE_def split: if_splits)

lemma splitq_ok:
  assumes "QUOTE \<notin> set D" "QUOTE \<notin> set OP" "QUOTE \<notin> set M" "QUOTE \<notin> set L"
    and "lookup_msisdn m = Some r"
  shows "splitq (ok_text D OP M r L) =
     [''{'', ''corr_id'', '':'' @ D @ '','', ''op'', '':'', OP, '','', ''msisdn'', '':'', M, '','',
      ''status'', '':'', ''OK'', '','', ''imsi'', '':'', imsi r, '','',
      ''serving_msc'', '':'', serving_msc r, '','', ''serving_vlr'', '':'', serving_vlr r, '','',
      ''route_group'', '':'', route_policy r, '','', ''flx_latency_ms'', '':'' @ L @ ''}'']"
  using assms(1-4) db_quote_free [OF assms(5)]
  by (simp add: ok_text_def splitq_append_free QUOTE_def)

lemma ok_text_msisdn_unique:
  assumes "QUOTE \<notin> set D" "QUOTE \<notin> set OP" "QUOTE \<notin> set M" "QUOTE \<notin> set L"
    and "lookup_msisdn m = Some r"
    and "QUOTE \<notin> set v" and "sublist (''\"msisdn\":\"'' @ v @ ''\"'') (ok_text D OP M r L)"
  shows "v = M"
proof -
  have "sublist (QUOTE # ''msisdn'' @ [QUOTE, CHR '':'', QUOTE] @ v @ [QUOTE]) (ok_text D OP M r L)"
    using assms(7) by (simp add: QUOTE_def)
  then have "val_in ''msisdn'' v (splitq (ok_text D OP M r L))"
    using assms(6) by (intro sublist_val) (simp_all add: QUOTE_def)
  then show ?thesis
    by (auto simp: splitq_ok [OF assms(1-5)])
qed

lemma hdr_read_pack:
  "hdr_read (pack t c p) = \<lparr>magic = MAGIC, version = 1, type = msgtype_code t, corr_id = c,
     payload_len = of_nat (length p), reserved = 0\<rparr>"
  by (simp add: pack_def hdr_read_hdr_bytes)

lemma digit_cases:
  assumes "n < 10"
  shows "digit n \<in> set ''0123456789'' \<and> digit_val (digit n) = n"
proof -
  from assms consider "n = 0" | "n = 1" | "n = 2" | "n = 3" | "n = 4" | "n = 5" | "n = 6"
    | "n = 7" | "n = 8" | "n = 9"
    by atomize_elim arith
  then show ?thesis
    by cases (simp_all add: digit_def digit_val_def)
qed

lemma digit_nonzero:
  assumes "0 < d" and "d < 10"
  shows "digit d \<noteq> CHR ''0''"
proof -
  from assms consider "d = 1" | "d = 2" | "d = 3" | "d = 4" | "d = 5" | "d = 6" | "d = 7"
    | "d = 8" | "d = 9"
    by atomize_elim arith
  then show ?thesis
    by cases (simp_all add: digit_def)
qed

lemma read_decimal_snoc: "read_decimal (s @ [c]) = 10 * read_decimal s + digit_val c"
  by (simp add: read_decimal_def)

lemma to_decimal_digits: "set (to_decimal n) \<subseteq> set ''0123456789''"
proof (induction n rule: to_decimal.induct)
  case (1 n)
  show ?case
  proof (cases "n < 10")
    case True
    then show ?thesis
      using digit_cases [of n] by (subst to_decimal.simps) simp
  next
    case False
    then have "set (to_decimal (n div 10)) \<subseteq> set ''0123456789''"
      using "1.IH" by simp
    moreover have "digit (n mod 10) \<in> set ''0123456789''"
      using digit_cases [of "n mod 10"] by simp
    ultimately show ?thesis
      using False by (subst to_decimal.simps) simp
  qed
qed

lemma read_decimal_to_decimal: "read_decimal (to_decimal n) = n"
proof (induction n rule: to_decimal.induct)
  case (1 n)
  show ?case
  proof (cases "n < 10")
    case True
    then show ?thesis
      using digit_cases [of n] by (subst to_decimal.simps) (simp add: read_decimal_def)
  next
    case False
    then have "read_decimal (to_decimal (n div 10)) = n div 10"
      using "1.IH" by simp
    moreover have "digit_val (digit (n mod 10)) = n mod 10"
      using digit_cases [of "n mod 10"] by simp
    ultimately show ?thesis
      using False by (subst to_decimal.simps) (simp add: read_decimal_snoc)
  qed
qed

lemma to_decimal_ne: "to_decimal n \<noteq> []"
  by (subst to_decimal.simps) simp

lemma to_decimal_no_leading_zero: "10 \<le> n \<Longrightarrow> hd (to_decimal n) \<noteq> CHR ''0''"
proof (induction n rule: to_decimal.induct)
  case (1 n)
  show ?case
  proof (cases "n div 10 < 10")
    case True
    have "0 < n div 10"
      using "1.prems" by simp
    then have "digit (n div 10) \<noteq> CHR ''0''"
      using True by (rule digit_nonzero)
    moreover have "to_decimal (n div 10) = [digit (n div 10)]"
      using True by (subst to_decimal.simps) simp
    ultimately show ?thesis
      using "1.prems" by (subst to_decimal.simps) simp
  next
    case False
    then have "hd (to_decimal (n div 10)) \<noteq> CHR ''0''"
      using "1.IH" "1.prems" by simp
    then show ?thesis
      using "1.prems" to_decimal_ne [of "n div 10"] by (subst to_decimal.simps) simp
  qed
qed

lemma show_u64_917: "show_u64 917 = ''917''"
  by (simp add: show_u64_def to_decimal.simps digit_def)

lemma rd917: "read_decimal ''917'' = 917"
  by (simp add: read_decimal_def digit_val_def)

text \<open>
  C6. For a request frame whose extracted \<^verbatim>\<open>msisdn\<close> is in the registry, the engine's
  response frame is \<^const>\<open>pack\<close> of type \<^verbatim>\<open>RouteResp\<close> with the correlation id of the request
  (its header reads back type 2 and that id); the response text starts with the
  \<^verbatim>\<open>corr_id\<close> field, whose value is the decimal numeral of that id (digits only, no leading
  zero, and read as a decimal it is the id); the text contains the \<^verbatim>\<open>msisdn\<close> field holding
  the extracted \<^verbatim>\<open>msisdn\<close> right before \<^verbatim>\<open>"status":"OK"\<close>, and holds no \<^verbatim>\<open>msisdn\<close> field
  with another value.
\<close>

theorem engine_found_echo:
  assumes "unpack data = Some (h, payload)" and "type h = 1"
    and "lookup_msisdn (json_get_string payload ''msisdn'') = Some r"
  shows "\<exists>rtext. engine_response data t0 t1 = Some (pack RouteResp (corr_id h) rtext)
     \<and> type (hdr_read (pack RouteResp (corr_id h) rtext)) = 2
     \<and> corr_id (hdr_read (pack RouteResp (corr_id h) rtext)) = corr_id h
     \<and> prefix (''{\"corr_id\":'' @ show_u64 (corr_id h) @ '',\"op\":\"'') rtext
     \<and> show_u64 (corr_id h) \<noteq> []
     \<and> set (show_u64 (corr_id h)) \<subseteq> set ''0123456789''
     \<and> read_decimal (show_u64 (corr_id h)) = unat (corr_id h)
     \<and> (10 \<le> unat (corr_id h) \<longrightarrow> hd (show_u64 (corr_id h)) \<noteq> CHR ''0'')
     \<and> sublist (''\"msisdn\":\"'' @ json_get_string payload ''msisdn'' @ ''\",\"status\":\"OK\"'') rtext
     \<and> (\<forall>v. QUOTE \<notin> set v \<and> sublist (''\"msisdn\":\"'' @ v @ ''\"'') rtext
            \<longrightarrow> v = json_get_string payload ''msisdn'')"
proof -
  let ?m = "json_get_string payload ''msisdn''"
  let ?op = "json_get_string payload ''op''"
  let ?D = "show_u64 (corr_id h)" and ?L = "show_u64 (t1 - t0)"
  let ?OP = "if ?op = [] then ''route'' else ?op"
  let ?text = "ok_text ?D ?OP ?m r ?L"
  have bt: "build_resp (corr_id h) ?op ?m (t1 - t0) = ?text"
    using assms(3) by (rule build_resp_found)
  have fr: "engine_response data t0 t1 = Some (pack RouteResp (corr_id h) ?text)"
    using engine_payload_req [OF assms(1,2)] bt by (simp add: engine_response_def)
  have qf: "QUOTE \<notin> set ?D" "QUOTE \<notin> set ?OP" "QUOTE \<notin> set ?m" "QUOTE \<notin> set ?L"
    by (simp_all add: show_u64_def to_decimal_quote_free json_get_string_quote_free)
      (simp add: QUOTE_def)
  have hdr: "type (hdr_read (pack RouteResp (corr_id h) ?text)) = 2"
    "corr_id (hdr_read (pack RouteResp (corr_id h) ?text)) = corr_id h"
    by (simp_all add: hdr_read_pack)
  have pre: "prefix (''{\"corr_id\":'' @ ?D @ '',\"op\":\"'') ?text"
  proof -
    have "?text = (''{\"corr_id\":'' @ ?D @ '',\"op\":\"'') @ (?OP @ ''\",\"msisdn\":\"'' @ ?m
     @ ''\",\"status\":\"OK\",\"imsi\":\"'' @ imsi r @ ''\",\"serving_msc\":\"'' @ serving_msc r
     @ ''\",\"serving_vlr\":\"'' @ serving_vlr r @ ''\",\"route_group\":\"'' @ route_policy r
     @ ''\",\"flx_latency_ms\":'' @ ?L @ ''}'')"
      by (simp add: ok_text_def)
    then show ?thesis
      by (metis prefixI)
  qed
  have sub: "sublist (''\"msisdn\":\"'' @ ?m @ ''\",\"status\":\"OK\"'') ?text"
  proof -
    have "?text = (''{\"corr_id\":'' @ ?D @ '',\"op\":\"'' @ ?OP @ ''\",'')
       @ (''\"msisdn\":\"'' @ ?m @ ''\",\"status\":\"OK\"'')
       @ ('',\"imsi\":\"'' @ imsi r @ ''\",\"serving_msc\":\"'' @ serving_msc r
          @ ''\",\"serving_vlr\":\"'' @ serving_vlr r @ ''\",\"route_group\":\"'' @ route_policy r
          @ ''\",\"flx_latency_ms\":'' @ ?L @ ''}'')"
      by (simp add: ok_text_def)
    then show ?thesis
      by (metis sublist_appendI)
  qed
  have uniq: "\<forall>v. QUOTE \<notin> set v \<and> sublist (''\"msisdn\":\"'' @ v @ ''\"'') ?text \<longrightarrow> v = ?m"
    using ok_text_msisdn_unique [OF qf assms(3)] by blast
  have d1: "show_u64 (corr_id h) \<noteq> []"
    by (simp add: show_u64_def to_decimal_ne)
  have d2: "set (show_u64 (corr_id h)) \<subseteq> set ''0123456789''"
    unfolding show_u64_def by (rule to_decimal_digits)
  have d3: "read_decimal (show_u64 (corr_id h)) = unat (corr_id h)"
    unfolding show_u64_def by (rule read_decimal_to_decimal)
  have d4: "10 \<le> unat (corr_id h) \<longrightarrow> hd (show_u64 (corr_id h)) \<noteq> CHR ''0''"
    unfolding show_u64_def by (rule impI) (rule to_decimal_no_leading_zero)
  show ?thesis
    by (intro exI [of _ ?text] conjI fr hdr pre d1 d2 d3 d4 sub uniq)
qed

theorem engine_found_echo_witness:
  "engine_response (pack RouteReq 917 demo_line) 100 103 =
      Some (pack RouteResp 917 ''{\"corr_id\":917,\"op\":\"route\",\"msisdn\":\"+14085551234\",\"status\":\"OK\",\"imsi\":\"310150123456789\",\"serving_msc\":\"MSC_DALLAS_01\",\"serving_vlr\":\"VLR_DAL_01\",\"route_group\":\"ROUTE_GROUP_SOUTH\",\"flx_latency_ms\":3}'')
   \<and> json_get_string demo_line ''msisdn'' = ''+14085551234''
   \<and> read_decimal ''917'' = 917
   \<and> (\<exists>rtext. engine_response (pack RouteReq 917 demo_line) 100 103 = Some (pack RouteResp 917 rtext)
        \<and> prefix ''{\"corr_id\":917,\"op\":\"'' rtext
        \<and> sublist ''\"msisdn\":\"+14085551234\",\"status\":\"OK\"'' rtext)"
proof -
  let ?h = "\<lparr>magic = MAGIC, version = 1, type = 1, corr_id = 917, payload_len = 38, reserved = 0\<rparr>"
  let ?r = "\<lparr>imsi = ''310150123456789'', serving_msc = ''MSC_DALLAS_01'',
             serving_vlr = ''VLR_DAL_01'', region = ''US-SOUTH''\<rparr>"
  have u: "unpack (pack RouteReq 917 demo_line) = Some (?h, demo_line)"
    using unpack_pack [of demo_line RouteReq 917] by (simp add: demo_line_def)
  have t: "type ?h = 1"
    by simp
  have m: "json_get_string demo_line ''msisdn'' = ''+14085551234''"
    by (simp add: json_get_string_def find_str_def find_char_def QUOTE_def demo_line_def)
  have o: "json_get_string demo_line ''op'' = ''route''"
    by (simp add: json_get_string_def find_str_def find_char_def QUOTE_def demo_line_def)
  have l: "lookup_msisdn (json_get_string demo_line ''msisdn'') = Some ?r"
    by (simp add: m lookup_msisdn_def db_def)
  have ev: "engine_response (pack RouteReq 917 demo_line) 100 103 =
      Some (pack RouteResp 917 ''{\"corr_id\":917,\"op\":\"route\",\"msisdn\":\"+14085551234\",\"status\":\"OK\",\"imsi\":\"310150123456789\",\"serving_msc\":\"MSC_DALLAS_01\",\"serving_vlr\":\"VLR_DAL_01\",\"route_group\":\"ROUTE_GROUP_SOUTH\",\"flx_latency_ms\":3}'')"
    using engine_payload_req [OF u t, of 100 103] l
    by (simp add: engine_response_def m o build_resp_def show_u64_small show_u64_917
        route_policy_def)
  from engine_found_echo [OF u t l, of 100 103]
  obtain rtext where r: "engine_response (pack RouteReq 917 demo_line) 100 103 =
        Some (pack RouteResp (corr_id ?h) rtext)"
      "prefix (''{\"corr_id\":'' @ show_u64 (corr_id ?h) @ '',\"op\":\"'') rtext"
      "read_decimal (show_u64 (corr_id ?h)) = unat (corr_id ?h)"
      "sublist (''\"msisdn\":\"'' @ json_get_string demo_line ''msisdn'' @ ''\",\"status\":\"OK\"'') rtext"
    by blast
  have rd: "read_decimal ''917'' = 917"
    using r(3) by (simp add: show_u64_917)
  have "\<exists>rtext. engine_response (pack RouteReq 917 demo_line) 100 103 = Some (pack RouteResp 917 rtext)
        \<and> prefix ''{\"corr_id\":917,\"op\":\"'' rtext
        \<and> sublist ''\"msisdn\":\"+14085551234\",\"status\":\"OK\"'' rtext"
    using r(1,2,4) by (auto simp: m show_u64_917)
  then show ?thesis
    using ev m rd by blast
qed

end
